theory Spec2Isabelle
  imports Complex_Main "HOL-Library.Word" "HOL-Library.Sublist" "HOL-Library.Log_Nat"
begin

unbundle bit_operations_syntax

section \<open>JavaScript containers used by the diff strategies\<close>

subsection \<open>\<open>Map\<close>: an association list in insertion order\<close>

text \<open>
  A JavaScript \<open>Map\<close> iterates in insertion order. \<open>set\<close> on a key that is present
  replaces the value where the key stands; on a new key it appends. \<open>delete\<close> removes
  the key. \<open>keys().next().value\<close> is the first key, \<open>undefined\<close> on an empty map.
\<close>

type_synonym ('k, 'v) js_map = "('k \<times> 'v) list"

fun js_map_set :: "('k, 'v) js_map \<Rightarrow> 'k \<Rightarrow> 'v \<Rightarrow> ('k, 'v) js_map" where
  "js_map_set [] k v = [(k, v)]"
| "js_map_set ((k', v') # m) k v =
     (if k' = k then (k, v) # m else (k', v') # js_map_set m k v)"

definition js_map_delete :: "('k, 'v) js_map \<Rightarrow> 'k \<Rightarrow> ('k, 'v) js_map" where
  "js_map_delete m k = filter (\<lambda>p. fst p \<noteq> k) m"

definition js_map_get :: "('k, 'v) js_map \<Rightarrow> 'k \<Rightarrow> 'v option" where
  "js_map_get m k = map_of m k"

definition js_map_first_key :: "('k, 'v) js_map \<Rightarrow> 'k option" where
  "js_map_first_key m = (case m of [] \<Rightarrow> None | p # _ \<Rightarrow> Some (fst p))"

subsection \<open>\<open>LRUCache\<close> of search-replace.ts\<close>

text \<open>
  The class keeps a \<open>Map\<close> and a bound. Keys and values are of types without
  \<open>undefined\<close> (the one instance is \<open>LRUCache<string, number>\<close>), so the tests
  \<open>value !== undefined\<close> and \<open>firstKey !== undefined\<close> are "the key is present" and
  "the map is not empty".
\<close>

record ('k, 'v) LRUCache =
  cache :: "('k, 'v) js_map"
  maxSize :: nat

definition LRUCache_new :: "nat \<Rightarrow> ('k, 'v) LRUCache" where
  "LRUCache_new n = \<lparr> cache = [], maxSize = n \<rparr>"

definition LRUCache_get :: "('k, 'v) LRUCache \<Rightarrow> 'k \<Rightarrow> 'v option \<times> ('k, 'v) LRUCache" where
  "LRUCache_get c key =
     (case js_map_get (cache c) key of
        None \<Rightarrow> (None, c)
      | Some v \<Rightarrow> (Some v, c\<lparr> cache := js_map_set (js_map_delete (cache c) key) key v \<rparr>))"

definition LRUCache_set :: "('k, 'v) LRUCache \<Rightarrow> 'k \<Rightarrow> 'v \<Rightarrow> ('k, 'v) LRUCache" where
  "LRUCache_set c key v =
     (let m1 = (if length (cache c) \<ge> maxSize c
                then (case js_map_first_key (cache c) of
                        None \<Rightarrow> cache c
                      | Some firstKey \<Rightarrow> js_map_delete (cache c) firstKey)
                else cache c)
      in c\<lparr> cache := js_map_set m1 key v \<rparr>)"

definition LRUCache_clear :: "('k, 'v) LRUCache \<Rightarrow> ('k, 'v) LRUCache" where
  "LRUCache_clear c = c\<lparr> cache := [] \<rparr>"

definition LRUCache_size :: "('k, 'v) LRUCache \<Rightarrow> nat" where
  "LRUCache_size c = length (cache c)"

definition MAX_CACHE_SIZE :: nat where
  "MAX_CACHE_SIZE = 1000"

definition similarityCache_init :: "(string, rat) LRUCache" where
  "similarityCache_init = LRUCache_new MAX_CACHE_SIZE"

text \<open>A client's use of the cache: any sequence of the three public operations.\<close>

datatype ('k, 'v) cache_op = Get 'k | Set 'k 'v | Clear

fun cache_step :: "('k, 'v) LRUCache \<Rightarrow> ('k, 'v) cache_op \<Rightarrow> ('k, 'v) LRUCache" where
  "cache_step c (Get k) = snd (LRUCache_get c k)"
| "cache_step c (Set k v) = LRUCache_set c k v"
| "cache_step c Clear = LRUCache_clear c"

definition cache_run :: "('k, 'v) LRUCache \<Rightarrow> ('k, 'v) cache_op list \<Rightarrow> ('k, 'v) LRUCache" where
  "cache_run c ops = foldl cache_step c ops"

definition cache_inv :: "('k, 'v) LRUCache \<Rightarrow> bool" where
  "cache_inv c \<longleftrightarrow> distinct (map fst (cache c)) \<and> length (cache c) \<le> maxSize c"

section \<open>Strings as JavaScript has them\<close>

text \<open>
  Strings are lists of 8-bit characters: the model covers Latin-1 text, where a
  JavaScript UTF-16 code unit and a \<open>char\<close> coincide.
\<close>

fun split_char :: "char \<Rightarrow> string \<Rightarrow> string list" where
  "split_char c [] = [[]]"
| "split_char c (x # xs) =
     (if x = c then [] # split_char c xs
      else (case split_char c xs of
              [] \<Rightarrow> [[x]]
            | y # ys \<Rightarrow> (x # y) # ys))"

definition toLowerCase_char :: "char \<Rightarrow> char" where
  "toLowerCase_char c =
     (if (65::nat) \<le> of_char c \<and> of_char c \<le> (90::nat)
      then char_of (of_char c + (32::nat)) else c)"

definition toLowerCase :: "string \<Rightarrow> string" where
  "toLowerCase s = map toLowerCase_char s"

text \<open>\<open>p.split(".").pop()?.toLowerCase()\<close>: \<open>split\<close> never returns an empty array.\<close>

definition path_ext :: "string \<Rightarrow> string" where
  "path_ext p = toLowerCase (last (split_char CHR ''.'' p))"

section \<open>The strategy selector (index.ts)\<close>

record FileStats =
  size_fs :: int
  path_fs :: string
  language :: "string option"
  lastModified :: nat

text \<open>The five strategy classes, each with the fields its constructor sets.\<close>

datatype DiffStrategy =
    ParallelDiffStrategy rat
  | AstAwareStrategy rat nat
  | SmartHybridStrategy
  | OptimizedUnifiedStrategy rat
  | SearchReplaceDiffStrategy rat nat

definition ParallelDiffStrategy_new :: "rat option \<Rightarrow> DiffStrategy" where
  "ParallelDiffStrategy_new fuzzyMatchThreshold =
     ParallelDiffStrategy (case fuzzyMatchThreshold of None \<Rightarrow> 9 / 10 | Some t \<Rightarrow> t)"

definition AstAwareStrategy_new :: "rat option \<Rightarrow> nat option \<Rightarrow> DiffStrategy" where
  "AstAwareStrategy_new fuzzyMatchThreshold maxCacheSize =
     AstAwareStrategy (case fuzzyMatchThreshold of None \<Rightarrow> 9 / 10 | Some t \<Rightarrow> t)
                      (case maxCacheSize of None \<Rightarrow> 50 | Some n \<Rightarrow> n)"

definition SmartHybridStrategy_new :: DiffStrategy where
  "SmartHybridStrategy_new = SmartHybridStrategy"

definition OptimizedUnifiedStrategy_new :: "rat option \<Rightarrow> DiffStrategy" where
  "OptimizedUnifiedStrategy_new fuzzyMatchThreshold =
     OptimizedUnifiedStrategy (case fuzzyMatchThreshold of None \<Rightarrow> 9 / 10 | Some t \<Rightarrow> t)"

definition BUFFER_LINES :: nat where
  "BUFFER_LINES = 20"

definition SearchReplaceDiffStrategy_new :: "rat option \<Rightarrow> nat option \<Rightarrow> DiffStrategy" where
  "SearchReplaceDiffStrategy_new fuzzyThreshold bufferLines =
     SearchReplaceDiffStrategy (case fuzzyThreshold of None \<Rightarrow> 1 | Some t \<Rightarrow> t)
                               (case bufferLines of None \<Rightarrow> BUFFER_LINES | Some n \<Rightarrow> n)"

text \<open>The threshold field of a strategy instance; Smart Hybrid has none.\<close>

fun strategy_threshold :: "DiffStrategy \<Rightarrow> rat option" where
  "strategy_threshold (ParallelDiffStrategy t) = Some t"
| "strategy_threshold (AstAwareStrategy t n) = Some t"
| "strategy_threshold SmartHybridStrategy = None"
| "strategy_threshold (OptimizedUnifiedStrategy t) = Some t"
| "strategy_threshold (SearchReplaceDiffStrategy t n) = Some t"

definition LARGE_FILE_THRESHOLD :: int where
  "LARGE_FILE_THRESHOLD = 1024 * 1024"

definition hasAstSupport :: "string option \<Rightarrow> bool" where
  "hasAstSupport filePath =
     (case filePath of
        None \<Rightarrow> False
      | Some p \<Rightarrow> if p = [] then False
                  else path_ext p \<in> set [''js'', ''jsx'', ''ts'', ''tsx'', ''go''])"

text \<open>
  The second parameter is \<open>FileStats | number | undefined\<close>; \<open>typeof\<close> tells the three
  apart.
\<close>

datatype StatsOrThreshold = StatsArg FileStats | NumberArg rat | NoArg

definition legacy_threshold :: "StatsOrThreshold \<Rightarrow> rat option \<Rightarrow> rat option" where
  "legacy_threshold fileStatsOrThreshold fuzzyMatchThreshold =
     (case fileStatsOrThreshold of NumberArg n \<Rightarrow> Some n | _ \<Rightarrow> fuzzyMatchThreshold)"

definition getDiffStrategy ::
  "string \<Rightarrow> StatsOrThreshold \<Rightarrow> rat option \<Rightarrow> bool \<Rightarrow> DiffStrategy" where
  "getDiffStrategy model fileStatsOrThreshold fuzzyMatchThreshold experimentalStrategy =
     (let threshold = legacy_threshold fileStatsOrThreshold fuzzyMatchThreshold;
          fileStats = (case fileStatsOrThreshold of StatsArg fs \<Rightarrow> Some fs | _ \<Rightarrow> None)
      in if (case fileStats of None \<Rightarrow> False
             | Some fs \<Rightarrow> size_fs fs \<noteq> 0 \<and> size_fs fs > LARGE_FILE_THRESHOLD)
         then ParallelDiffStrategy_new threshold
         else if hasAstSupport (map_option path_fs fileStats)
         then AstAwareStrategy_new threshold None
         else if (case fileStats of None \<Rightarrow> False
                  | Some fs \<Rightarrow> size_fs fs \<noteq> 0 \<and> size_fs fs \<le> LARGE_FILE_THRESHOLD)
         then (let ext = map_option (\<lambda>fs. path_ext (path_fs fs)) fileStats
               in if (case ext of None \<Rightarrow> False
                      | Some x \<Rightarrow> x \<noteq> [] \<and>
                          x \<in> set [''json'', ''txt'', ''md'', ''yml'', ''yaml'', ''go''])
                  then SmartHybridStrategy_new
                  else OptimizedUnifiedStrategy_new threshold)
         else SearchReplaceDiffStrategy_new threshold None)"

subsection \<open>The language gate of \<open>AstAwareStrategy.applyDiff\<close>\<close>

definition detectLanguage :: "string option \<Rightarrow> string" where
  "detectLanguage filePath =
     (case filePath of
        None \<Rightarrow> ''javascript''
      | Some p \<Rightarrow>
          if p = [] then ''javascript''
          else (let extension = path_ext p
                in if extension = ''js'' \<or> extension = ''jsx'' then ''javascript''
                   else if extension = ''ts'' \<or> extension = ''tsx'' then ''typescript''
                   else ''unknown''))"

definition isLanguageSupported :: "string \<Rightarrow> bool" where
  "isLanguageSupported lang \<longleftrightarrow> lang \<in> set [''javascript'', ''typescript'']"

text \<open>
  The first statements of the \<open>try\<close> block of \<open>AstAwareStrategy.applyDiff\<close>: an
  unsupported language throws, and the \<open>catch\<close> turns the throw into the failure result
  whose message is returned here. \<open>None\<close>: the gate is passed (what follows, parsing with
  Babel, is outside this development).
\<close>

definition AstAware_language_gate :: "FileStats option \<Rightarrow> string option" where
  "AstAware_language_gate fileStats =
     (let lang = detectLanguage (map_option path_fs fileStats)
      in if \<not> isLanguageSupported lang
         then Some (''Failed to apply AST-aware diff: '' @ ''Language '' @ lang
                    @ '' is not supported for AST-aware diffing'')
         else None)"

section \<open>Results\<close>

text \<open>
  \<open>DiffResult\<close> of types.ts: success carries the content, the number of applied lines
  and, when metrics are collected, the accuracy score (execution time and memory use
  are measurements of the run and are left out); failure carries the error.
\<close>

datatype 'e DiffResult =
    Success string nat "rat option"
  | Failure 'e


record Options =
  opt_startLine :: "int option"
  opt_endLine :: "int option"
  opt_fileStats :: "FileStats option"
  opt_collectMetrics :: bool

section \<open>More of JavaScript's strings and arrays\<close>

definition is_ws :: "char \<Rightarrow> bool" where
  "is_ws c \<longleftrightarrow> of_char c \<in> set [9, 10, 11, 12, 13, 32, 160 :: nat]"

definition trim :: "string \<Rightarrow> string" where
  "trim s = rev (dropWhile is_ws (rev (dropWhile is_ws s)))"

definition is_digit :: "char \<Rightarrow> bool" where
  "is_digit c \<longleftrightarrow> (48::nat) \<le> of_char c \<and> of_char c \<le> (57::nat)"

definition parseInt :: "string \<Rightarrow> nat" where
  "parseInt ds = foldl (\<lambda>n c. 10 * n + (of_char c - 48)) 0 ds"

definition join :: "string \<Rightarrow> string list \<Rightarrow> string" where
  "join sep xs = (case xs of [] \<Rightarrow> [] | y # ys \<Rightarrow> y @ concat (map (\<lambda>z. sep @ z) ys))"

text \<open>\<open>xs.slice(a, b)\<close> and \<open>xs.splice(start, deleteCount, ...items)\<close> on indices \<open>\<ge> 0\<close>.\<close>

definition slice :: "'a list \<Rightarrow> nat \<Rightarrow> nat \<Rightarrow> 'a list" where
  "slice xs a b = drop a (take b xs)"

definition splice :: "'a list \<Rightarrow> nat \<Rightarrow> nat \<Rightarrow> 'a list \<Rightarrow> 'a list" where
  "splice xs start deleteCount items =
     (let st = min start (length xs)
      in take st xs @ items @ drop (st + deleteCount) xs)"

text \<open>A regular expression without \<open>^\<close> is tried at every position, leftmost first.\<close>

fun regex_search :: "(string \<Rightarrow> 'a option) \<Rightarrow> string \<Rightarrow> 'a option" where
  "regex_search m [] = m []"
| "regex_search m (c # cs) =
     (case m (c # cs) of Some r \<Rightarrow> Some r | None \<Rightarrow> regex_search m cs)"

definition strip_prefix :: "string \<Rightarrow> string \<Rightarrow> string option" where
  "strip_prefix p s = (if prefix p s then Some (drop (length p) s) else None)"

section \<open>The Optimized Unified strategy (optimized-unified.ts)\<close>

subsection \<open>The host\<close>

text \<open>
  Two numbers are the engine's and not the program's: how many cores
  \<open>navigator.hardwareConcurrency\<close> reports, and how many arguments a call can be given.
  The second bounds the array that is spread into a call: \<open>f(a, b, ...items)\<close> has
  \<open>items.length + 2\<close> arguments, and past the engine's limit the call throws a
  \<open>RangeError\<close> (V8 takes some hundred thousand arguments).
\<close>

record host =
  host_hardwareConcurrency :: nat
  host_maxArguments :: int

text \<open>What the strategy throws, and what the calls it makes throw.\<close>

datatype ou_error =
    InvalidHunkHeader
  | ContextMismatch
  | TypeError_trim_of_undefined
  | RangeError_array_length
  | RangeError_call_stack

text \<open>
  \<open>new Array(n).fill("")\<close>: an array has fewer than \<open>2^32\<close> elements, and
  \<open>new Array(n)\<close> throws a \<open>RangeError\<close> for any other \<open>n\<close>.
\<close>

definition new_Array_fill :: "nat \<Rightarrow> ou_error + string list" where
  "new_Array_fill n =
     (if int n < 2 ^ 32 then Inr (replicate n []) else Inl RangeError_array_length)"

text \<open>\<open>xs.splice(start, deleteCount, ...items)\<close>.\<close>

definition splice_spread ::
  "host \<Rightarrow> 'a list \<Rightarrow> nat \<Rightarrow> nat \<Rightarrow> 'a list \<Rightarrow> ou_error + 'a list" where
  "splice_spread H xs start deleteCount items =
     (if int (length items) + 2 \<le> host_maxArguments H
      then Inr (splice xs start deleteCount items)
      else Inl RangeError_call_stack)"

subsection \<open>\<open>GapBuffer\<close>\<close>

text \<open>
  The buffer is an array of strings: one character each, or the empty string in the
  gap. The constructor and the methods that move or fill the gap spread an array into
  \<open>splice\<close>: they return the buffer, or what was thrown.
\<close>

record GapBuffer =
  buffer :: "string list"
  gapStart :: nat
  gapEnd :: nat

definition GapBuffer_new :: "host \<Rightarrow> string \<Rightarrow> nat \<Rightarrow> ou_error + GapBuffer" where
  "GapBuffer_new H content gapSize =
     (case new_Array_fill gapSize of
        Inl e \<Rightarrow> Inl e
      | Inr gap \<Rightarrow>
          (case splice_spread H (map (\<lambda>c. [c]) content) 0 0 gap of
             Inl e \<Rightarrow> Inl e
           | Inr buf \<Rightarrow> Inr \<lparr> buffer = buf, gapStart = 0, gapEnd = gapSize \<rparr>))"

definition moveGap :: "host \<Rightarrow> GapBuffer \<Rightarrow> nat \<Rightarrow> ou_error + GapBuffer" where
  "moveGap H b pos =
     (if pos = gapStart b then Inr b
      else let gapSize = gapEnd b - gapStart b
           in if pos < gapStart b
              then (let moveSize = gapStart b - pos;
                        temp = slice (buffer b) pos (gapStart b)
                    in case splice_spread H (buffer b) (gapEnd b - moveSize) moveSize temp of
                         Inl e \<Rightarrow> Inl e
                       | Inr buf \<Rightarrow>
                           Inr \<lparr> buffer = buf, gapStart = pos, gapEnd = pos + gapSize \<rparr>)
              else (let moveSize = pos - gapStart b;
                        temp = slice (buffer b) (gapEnd b) (gapEnd b + moveSize)
                    in case splice_spread H (buffer b) (gapStart b) moveSize temp of
                         Inl e \<Rightarrow> Inl e
                       | Inr buf \<Rightarrow>
                           Inr \<lparr> buffer = buf, gapStart = pos, gapEnd = pos + gapSize \<rparr>))"

text \<open>The gap of \<open>insert\<close>, expanded if the characters do not fit.\<close>

definition expand_gap :: "host \<Rightarrow> GapBuffer \<Rightarrow> nat \<Rightarrow> ou_error + GapBuffer" where
  "expand_gap H b n =
     (if n > gapEnd b - gapStart b
      then (let extra = n - (gapEnd b - gapStart b)
            in case new_Array_fill extra of
                 Inl e \<Rightarrow> Inl e
               | Inr gap \<Rightarrow>
                   (case splice_spread H (buffer b) (gapEnd b) 0 gap of
                      Inl e \<Rightarrow> Inl e
                    | Inr buf \<Rightarrow> Inr (b\<lparr> buffer := buf, gapEnd := gapEnd b + extra \<rparr>)))
      else Inr b)"

definition insert_gb :: "host \<Rightarrow> GapBuffer \<Rightarrow> nat \<Rightarrow> string \<Rightarrow> ou_error + GapBuffer" where
  "insert_gb H b0 pos content =
     (case moveGap H b0 pos of
        Inl e \<Rightarrow> Inl e
      | Inr b \<Rightarrow>
          let chars = map (\<lambda>c. [c]) content
          in case expand_gap H b (length chars) of
               Inl e \<Rightarrow> Inl e
             | Inr b1 \<Rightarrow>
                 (case splice_spread H (buffer b1) (gapStart b1) (length chars) chars of
                    Inl e \<Rightarrow> Inl e
                  | Inr buf \<Rightarrow>
                      Inr (b1\<lparr> buffer := buf, gapStart := gapStart b1 + length chars \<rparr>)))"

definition replace_gb ::
  "host \<Rightarrow> GapBuffer \<Rightarrow> nat \<Rightarrow> nat \<Rightarrow> string \<Rightarrow> ou_error + GapBuffer" where
  "replace_gb H b0 start en content =
     (case moveGap H b0 start of
        Inl e \<Rightarrow> Inl e
      | Inr b \<Rightarrow>
          let deleteCount = en - start;
              b1 = b\<lparr> buffer := splice (buffer b) (gapStart b) deleteCount [] \<rparr>
          in insert_gb H b1 start content)"

definition slice_gb :: "GapBuffer \<Rightarrow> nat \<Rightarrow> nat \<Rightarrow> string" where
  "slice_gb b start en =
     (let start' = (if start \<ge> gapStart b \<and> start < gapEnd b then gapEnd b else start);
          en' = (if en \<ge> gapStart b \<and> en < gapEnd b then gapEnd b else en)
      in concat (slice (buffer b) start' en'))"

definition toString_gb :: "GapBuffer \<Rightarrow> string" where
  "toString_gb b =
     concat (slice (buffer b) 0 (gapStart b) @ drop (gapEnd b) (buffer b))"

subsection \<open>Hunks and their parser\<close>

record DiffHunk =
  start_hunk :: nat
  end_hunk :: nat
  removed :: "string list"
  added :: "string list"
  context_hunk :: "string list"

text \<open>
  The message the \<open>catch\<close> of \<open>applyDiff\<close> builds from the thrown error (the
  texts of the \<open>TypeError\<close> and of the two \<open>RangeError\<close>s are the engine's; V8's
  are given).
\<close>

fun ou_error_message :: "ou_error \<Rightarrow> string" where
  "ou_error_message InvalidHunkHeader =
     ''Failed to apply unified diff: Invalid hunk header format''"
| "ou_error_message ContextMismatch =
     ''Failed to apply unified diff: Context mismatch in hunk''"
| "ou_error_message TypeError_trim_of_undefined =
     ''Failed to apply unified diff: Cannot read properties of undefined (reading 'trim')''"
| "ou_error_message RangeError_array_length =
     ''Failed to apply unified diff: Invalid array length''"
| "ou_error_message RangeError_call_stack =
     ''Failed to apply unified diff: Maximum call stack size exceeded''"

text \<open>\<open>(?:,\d+)?\<close>: taken when a comma and a digit follow, skipped otherwise.\<close>

definition opt_comma_digits :: "string \<Rightarrow> string" where
  "opt_comma_digits s =
     (case s of
        [] \<Rightarrow> s
      | c # r \<Rightarrow> if c = CHR '','' \<and> takeWhile is_digit r \<noteq> []
                 then dropWhile is_digit r else s)"

text \<open>\<open>@@ -(\d+)(?:,\d+)? \+(\d+)(?:,\d+)? @@\<close> matched at the head of a string.\<close>

definition hunk_header_here :: "string \<Rightarrow> (string \<times> string) option" where
  "hunk_header_here s =
     (case strip_prefix ''@@ -'' s of
        None \<Rightarrow> None
      | Some r1 \<Rightarrow>
          let d1 = takeWhile is_digit r1; r2 = opt_comma_digits (dropWhile is_digit r1)
          in if d1 = [] then None
             else (case strip_prefix '' +'' r2 of
                     None \<Rightarrow> None
                   | Some r3 \<Rightarrow>
                       let d2 = takeWhile is_digit r3;
                           r4 = opt_comma_digits (dropWhile is_digit r3)
                       in if d2 = [] then None
                          else (case strip_prefix '' @@'' r4 of
                                  None \<Rightarrow> None
                                | Some r5 \<Rightarrow> Some (d1, d2))))"

definition parseHunkHeader :: "string \<Rightarrow> ou_error + (nat \<times> nat)" where
  "parseHunkHeader header =
     (case regex_search hunk_header_here header of
        None \<Rightarrow> Inl InvalidHunkHeader
      | Some (m1, m2) \<Rightarrow> Inr (parseInt m1, parseInt m2))"

text \<open>
  The loop of \<open>parseUnifiedDiff\<close> over the lines, with its two variables: the hunks
  pushed so far and the current hunk.
\<close>

fun parse_lines ::
  "string list \<Rightarrow> DiffHunk list \<Rightarrow> DiffHunk option \<Rightarrow> ou_error + (DiffHunk list \<times> DiffHunk option)"
where
  "parse_lines [] hunks currentHunk = Inr (hunks, currentHunk)"
| "parse_lines (line # lines) hunks currentHunk =
     (if prefix ''@@'' line
      then (let hunks' = (case currentHunk of None \<Rightarrow> hunks | Some h \<Rightarrow> hunks @ [h])
            in case parseHunkHeader line of
                 Inl e \<Rightarrow> Inl e
               | Inr (start, count) \<Rightarrow>
                   parse_lines lines hunks'
                     (Some \<lparr> start_hunk = start, end_hunk = start + count,
                             removed = [], added = [], context_hunk = [] \<rparr>))
      else (case currentHunk of
              None \<Rightarrow> parse_lines lines hunks None
            | Some h \<Rightarrow>
                if prefix ''-'' line
                then parse_lines lines hunks (Some (h\<lparr> removed := removed h @ [drop 1 line] \<rparr>))
                else if prefix ''+'' line
                then parse_lines lines hunks (Some (h\<lparr> added := added h @ [drop 1 line] \<rparr>))
                else if prefix '' '' line
                then parse_lines lines hunks
                       (Some (h\<lparr> context_hunk := context_hunk h @ [drop 1 line] \<rparr>))
                else parse_lines lines hunks (Some h)))"

definition parseUnifiedDiff :: "string \<Rightarrow> ou_error + DiffHunk list" where
  "parseUnifiedDiff diffContent =
     (case parse_lines (split_char CHR 0x0A diffContent) [] None of
        Inl e \<Rightarrow> Inl e
      | Inr (hunks, currentHunk) \<Rightarrow>
          Inr (case currentHunk of None \<Rightarrow> hunks | Some h \<Rightarrow> hunks @ [h]))"

subsection \<open>Verifying and applying hunks\<close>

text \<open>
  \<open>hunk.context.every((line, i) => contextLines[i].trim() === line.trim())\<close>: the
  first line that differs ends the test with \<open>false\<close>; a context line beyond the end of
  \<open>contextLines\<close> reads \<open>undefined\<close>, and \<open>undefined.trim()\<close> throws.
\<close>

fun every_context :: "string list \<Rightarrow> string list \<Rightarrow> ou_error + bool" where
  "every_context [] contextLines = Inr True"
| "every_context (line # ls) [] = Inl TypeError_trim_of_undefined"
| "every_context (line # ls) (c # cs) =
     (if trim c = trim line then every_context ls cs else Inr False)"

definition verifyContext :: "GapBuffer \<Rightarrow> DiffHunk \<Rightarrow> ou_error + bool" where
  "verifyContext b hunk =
     (let content = slice_gb b (start_hunk hunk) (end_hunk hunk);
          contextLines = split_char CHR 0x0A content
      in every_context (context_hunk hunk) contextLines)"

fun processHunksSequentially ::
  "host \<Rightarrow> DiffHunk list \<Rightarrow> GapBuffer \<Rightarrow> ou_error + GapBuffer" where
  "processHunksSequentially H [] b = Inr b"
| "processHunksSequentially H (hunk # hunks) b =
     (case verifyContext b hunk of
        Inl e \<Rightarrow> Inl e
      | Inr False \<Rightarrow> Inl ContextMismatch
      | Inr True \<Rightarrow>
          (case replace_gb H b (start_hunk hunk) (end_hunk hunk)
                  (join [CHR 0x0A] (added hunk)) of
             Inl e \<Rightarrow> Inl e
           | Inr b' \<Rightarrow> processHunksSequentially H hunks b'))"

text \<open>
  \<open>splitHunksIntoChunks\<close>: \<open>chunkSize = Math.ceil(hunks.length / hardwareConcurrency)\<close>,
  and the loop takes a slice of that size at a time. A hardware concurrency of 0 makes
  the quotient infinite and the one chunk the whole list. The loop runs only on a
  non-empty list, where \<open>chunkSize \<ge> 1\<close>.
\<close>

definition chunk_size :: "nat \<Rightarrow> nat \<Rightarrow> nat" where
  "chunk_size len cores =
     (if cores = 0 then len else (len + cores - 1) div cores)"

function chunks_of :: "nat \<Rightarrow> 'a list \<Rightarrow> 'a list list" where
  "chunks_of n xs =
     (if xs = [] \<or> n = 0 then [] else take n xs # chunks_of n (drop n xs))"
  by pat_completeness auto
termination
  by (relation "measure (\<lambda>(n, xs). length xs)") auto

declare chunks_of.simps [simp del]

definition splitHunksIntoChunks :: "host \<Rightarrow> DiffHunk list \<Rightarrow> DiffHunk list list" where
  "splitHunksIntoChunks H hunks =
     chunks_of (chunk_size (length hunks) (host_hardwareConcurrency H)) hunks"

text \<open>
  \<open>processHunksInParallel\<close> maps \<open>processHunksSequentially\<close> over the chunks. That
  function is synchronous, so the chunks run one after the other on the shared buffer,
  and the first throw leaves the map.
\<close>

fun process_chunks ::
  "host \<Rightarrow> DiffHunk list list \<Rightarrow> GapBuffer \<Rightarrow> ou_error + GapBuffer" where
  "process_chunks H [] b = Inr b"
| "process_chunks H (chunk # chunks) b =
     (case processHunksSequentially H chunk b of
        Inl e \<Rightarrow> Inl e
      | Inr b' \<Rightarrow> process_chunks H chunks b')"

definition processHunksInParallel ::
  "host \<Rightarrow> DiffHunk list \<Rightarrow> GapBuffer \<Rightarrow> ou_error + GapBuffer" where
  "processHunksInParallel H hunks b = process_chunks H (splitHunksIntoChunks H hunks) b"

definition CHUNK_SIZE_OU :: int where
  "CHUNK_SIZE_OU = 1024 * 1024"

definition GAP_BUFFER_SIZE :: nat where
  "GAP_BUFFER_SIZE = 1024"

text \<open>
  The body of \<open>applyDiff\<close> from the parsed hunks on, over the buffer built from the
  original content.
\<close>

definition OptimizedUnified_applyHunks ::
  "host \<Rightarrow> GapBuffer \<Rightarrow> DiffHunk list \<Rightarrow> Options option \<Rightarrow> ou_error DiffResult" where
  "OptimizedUnified_applyHunks H b0 hunks options =
     (let size_opt = (case options of None \<Rightarrow> None
                      | Some opts \<Rightarrow> (case opt_fileStats opts of
                                       None \<Rightarrow> None
                                     | Some fs \<Rightarrow> Some (size_fs fs)));
          metrics = (case options of None \<Rightarrow> False | Some opts \<Rightarrow> opt_collectMetrics opts);
          processed =
            (if (case size_opt of None \<Rightarrow> False
                 | Some sz \<Rightarrow> sz \<noteq> 0 \<and> sz > CHUNK_SIZE_OU)
             then processHunksInParallel H hunks b0
             else processHunksSequentially H hunks b0)
      in case processed of
           Inl e \<Rightarrow> Failure e
         | Inr b \<Rightarrow>
             Success (toString_gb b) (sum_list (map (\<lambda>h. length (added h)) hunks))
                     (if metrics then Some 1 else None))"

text \<open>
  \<open>applyDiff\<close>: the buffer is built first, with the gap of \<open>GAP_BUFFER_SIZE\<close>, then
  the diff is parsed; whatever is thrown on the way is caught and makes the failure.
\<close>

definition OptimizedUnified_applyDiff ::
  "host \<Rightarrow> string \<Rightarrow> string \<Rightarrow> Options option \<Rightarrow> ou_error DiffResult" where
  "OptimizedUnified_applyDiff H originalContent diffContent options =
     (case GapBuffer_new H originalContent GAP_BUFFER_SIZE of
        Inl e \<Rightarrow> Failure e
      | Inr b0 \<Rightarrow>
          (case parseUnifiedDiff diffContent of
             Inl e \<Rightarrow> Failure e
           | Inr hunks \<Rightarrow> OptimizedUnified_applyHunks H b0 hunks options))"

section \<open>The Search-Replace strategy (search-replace.ts)\<close>

subsection \<open>\<open>murmurHash3\<close>\<close>

text \<open>
  JavaScript's bitwise operators and \<open>Math.imul\<close> work on 32-bit integers, and the one
  addition (\<open>Math.imul(hash, m) + n\<close>) is exact in double precision and reduced by the
  next bitwise operator: the hash is arithmetic on \<open>32 word\<close>.
\<close>

definition rotl32 :: "32 word \<Rightarrow> nat \<Rightarrow> 32 word" where
  "rotl32 k r = push_bit r k OR drop_bit (32 - r) k"

definition charCode :: "char \<Rightarrow> 32 word" where
  "charCode c = of_nat (of_char c)"

definition mix_k :: "32 word \<Rightarrow> 32 word" where
  "mix_k k = rotl32 (k * 0xcc9e2d51) 15 * 0x1b873593"

text \<open>The loop over whole 4-character groups; what it returns with is the tail.\<close>

fun murmur_chunks :: "32 word \<Rightarrow> string \<Rightarrow> 32 word \<times> string" where
  "murmur_chunks hash (a # b # c # d # rest) =
     (let k = (charCode a AND 0xff) OR push_bit 8 (charCode b AND 0xff)
              OR push_bit 16 (charCode c AND 0xff) OR push_bit 24 (charCode d AND 0xff);
          hash1 = hash XOR mix_k k;
          hash2 = rotl32 hash1 13
      in murmur_chunks (hash2 * 5 + 0xe6546b64) rest)"
| "murmur_chunks hash tail = (hash, tail)"

text \<open>The remaining one to three characters.\<close>

fun murmur_tail :: "32 word \<Rightarrow> string \<Rightarrow> 32 word" where
  "murmur_tail hash [a, b, c] =
     hash XOR mix_k (push_bit 16 (charCode a) XOR push_bit 8 (charCode b) XOR charCode c)"
| "murmur_tail hash [b, c] = hash XOR mix_k (push_bit 8 (charCode b) XOR charCode c)"
| "murmur_tail hash [c] = hash XOR mix_k (charCode c)"
| "murmur_tail hash tail = hash"

definition murmur_final :: "32 word \<Rightarrow> nat \<Rightarrow> 32 word" where
  "murmur_final hash0 len =
     (let hash1 = hash0 XOR of_nat len;
          hash2 = hash1 XOR drop_bit 16 hash1;
          hash3 = hash2 * 0x85ebca6b;
          hash4 = hash3 XOR drop_bit 13 hash3;
          hash5 = hash4 * 0xc2b2ae35
      in hash5 XOR drop_bit 16 hash5)"

definition murmurHash3 :: "string \<Rightarrow> 32 word" where
  "murmurHash3 str =
     (case murmur_chunks 0x1234abcd str of
        (hash, tail) \<Rightarrow> murmur_final (murmur_tail hash tail) (length str))"

subsection \<open>Distance and normalization\<close>

text \<open>
  \<open>distance\<close> of the package fastest-levenshtein: the Levenshtein distance, by its
  defining recurrence.
\<close>

fun distance :: "string \<Rightarrow> string \<Rightarrow> nat" where
  "distance [] ys = length ys"
| "distance (x # xs) [] = Suc (length xs)"
| "distance (x # xs) (y # ys) =
     min (Suc (distance xs (y # ys)))
         (min (Suc (distance (x # xs) ys))
              (distance xs ys + (if x = y then 0 else 1)))"

text \<open>\<open>str.replace(/\s+/g, " ")\<close>: the flag tells whether a run of white space is open.\<close>

fun collapse_ws :: "bool \<Rightarrow> string \<Rightarrow> string" where
  "collapse_ws in_run [] = []"
| "collapse_ws in_run (c # cs) =
     (if is_ws c then (if in_run then collapse_ws True cs else CHR '' '' # collapse_ws True cs)
      else c # collapse_ws False cs)"

text \<open>
  \<open>normalizeStr\<close>. Its \<open>WeakMap\<close> is looked up with an object made for the lookup,
  which no map holds: the string is normalized on every call.
\<close>

definition normalizeStr :: "string \<Rightarrow> string" where
  "normalizeStr str = trim (collapse_ws False str)"

subsection \<open>Double precision\<close>

text \<open>
  A score is a JavaScript number, a double. The doubles of this strategy are far from
  the ends of the exponent range, where a double is a rational with 53 significant
  bits, and an arithmetic operation is the exact one followed by rounding to the
  nearest double, a tie going to the even significand. \<open>round_even\<close> is that rounding
  to an integer; \<open>exponent2 x\<close> is the \<open>e\<close> with \<open>2^e \<le> x < 2^(e + 1)\<close> of a positive
  \<open>x\<close>, from the bit lengths of its numerator and denominator; \<open>fl\<close> rounds a rational
  to a double. Comparisons of doubles are those of the rationals. The threshold, which
  the caller supplies, is taken to be a number of this kind too, neither \<open>NaN\<close> nor an
  infinity; a literal such as \<open>0.2\<close> is \<open>fl (1 / 5)\<close>.
\<close>

definition round_even :: "rat \<Rightarrow> int" where
  "round_even x =
     (let f = \<lfloor>x\<rfloor>; r = x - of_int f
      in if r < 1 / 2 then f else if 1 / 2 < r then f + 1 else if even f then f else f + 1)"

definition exponent2 :: "rat \<Rightarrow> int" where
  "exponent2 x =
     (case quotient_of x of
        (p, q) \<Rightarrow>
          let e0 = bitlen p - bitlen q
          in if 2 powi e0 \<le> x then e0 else e0 - 1)"

definition fl :: "rat \<Rightarrow> rat" where
  "fl x =
     (if x = 0 then 0
      else let u = 2 powi (exponent2 \<bar>x\<bar> - 52)
           in of_int (round_even (x / u)) * u)"

definition is_double :: "rat \<Rightarrow> bool" where
  "is_double x \<longleftrightarrow> fl x = x"

text \<open>The greatest double below 1.\<close>

definition below_one :: rat where
  "below_one = 1 - 1 / 2 ^ 53"

text \<open>
  \<open>1 - dist / maxLength\<close>: a division and a subtraction, each rounded. The two
  operands of the division are lengths of strings, which are below \<open>2^53\<close> in
  JavaScript and so are doubles as they stand; lists have no such bound, and for a
  length that no string has the score is left at 0.
\<close>

definition js_similarity :: "nat \<Rightarrow> nat \<Rightarrow> rat" where
  "js_similarity d maxLength =
     (if int maxLength < 2 ^ 53 then fl (1 - fl (of_nat d / of_nat maxLength)) else 0)"

text \<open>\<open>Math.floor(x * 100)\<close>.\<close>

definition floor_percent :: "rat \<Rightarrow> int" where
  "floor_percent x = \<lfloor>fl (x * 100)\<rfloor>"

subsection \<open>\<open>getSimilarity\<close>\<close>

text \<open>
  The module's \<open>similarityCache\<close> is passed in and returned. Its values are scores:
  doubles.
\<close>

type_synonym sim_cache = "(string, rat) LRUCache"

definition getSimilarity :: "sim_cache \<Rightarrow> string \<Rightarrow> string \<Rightarrow> rat \<times> sim_cache" where
  "getSimilarity c original search =
     (if search = [] then (1, c)
      else let cacheKey = original @ ''|'' @ search;
               (cachedResult, c1) = LRUCache_get c cacheKey
           in case cachedResult of
                Some v \<Rightarrow> (v, c1)
              | None \<Rightarrow>
                  let normalizedOriginal = normalizeStr original;
                      normalizedSearch = normalizeStr search
                  in if normalizedOriginal = normalizedSearch
                     then (1, LRUCache_set c1 cacheKey 1)
                     else if murmurHash3 normalizedOriginal = murmurHash3 normalizedSearch
                     then (1, LRUCache_set c1 cacheKey 1)
                     else let dist = distance normalizedOriginal normalizedSearch;
                              maxLength = max (length normalizedOriginal) (length normalizedSearch);
                              similarity = js_similarity dist maxLength
                          in (similarity, LRUCache_set c1 cacheKey similarity))"

subsection \<open>Extracting the block\<close>

definition includes_str :: "string \<Rightarrow> string \<Rightarrow> bool" where
  "includes_str s pat \<longleftrightarrow> list_ex (prefix pat) (suffixes s)"

text \<open>\<open>\r?\n\<close> at the head of a string.\<close>

definition opt_cr_nl :: "string \<Rightarrow> string option" where
  "opt_cr_nl s =
     (case strip_prefix [CHR 0x0D, CHR 0x0A] s of
        Some r \<Rightarrow> Some r
      | None \<Rightarrow> strip_prefix [CHR 0x0A] s)"

text \<open>
  A lazy group \<open>([\s\S]*?)\<close> followed by the rest of the expression: the shortest
  group after which the rest matches.
\<close>

fun lazy_then :: "(string \<Rightarrow> 'a option) \<Rightarrow> string \<Rightarrow> (string \<times> 'a) option" where
  "lazy_then k [] = (case k [] of None \<Rightarrow> None | Some r \<Rightarrow> Some ([], r))"
| "lazy_then k (c # cs) =
     (case k (c # cs) of
        Some r \<Rightarrow> Some ([], r)
      | None \<Rightarrow> (case lazy_then k cs of None \<Rightarrow> None | Some (g, r) \<Rightarrow> Some (c # g, r)))"

definition searchMarker :: string where "searchMarker = ''<<<<<<< SEARCH''"
definition dividerMarker :: string where "dividerMarker = ''=======''"
definition replaceMarker :: string where "replaceMarker = ''>>>>>>> REPLACE''"

definition diffRegex_tail :: "string \<Rightarrow> string option" where
  "diffRegex_tail s = Option.bind (opt_cr_nl s) (strip_prefix replaceMarker)"

definition diffRegex_middle :: "string \<Rightarrow> string option" where
  "diffRegex_middle s =
     Option.bind (Option.bind (Option.bind (opt_cr_nl s) (strip_prefix dividerMarker)) opt_cr_nl)
       (\<lambda>r. map_option fst (lazy_then diffRegex_tail r))"

definition diffRegex_here :: "string \<Rightarrow> (string \<times> string) option" where
  "diffRegex_here s =
     Option.bind (Option.bind (strip_prefix searchMarker s) opt_cr_nl)
       (lazy_then diffRegex_middle)"

definition diffRegex_match :: "string \<Rightarrow> (string \<times> string) option" where
  "diffRegex_match diffContent = regex_search diffRegex_here diffContent"

subsection \<open>Errors\<close>

text \<open>
  The failure results of \<open>applyDiff\<close>, with the values their messages are built from:
  the missing markers; the two line numbers; the line range and the number of lines;
  the percentages \<open>Math.floor(bestMatchScore * 100)\<close> and
  \<open>Math.floor(fuzzyThreshold * 100)\<close> with the search block and the best match.
\<close>

datatype sr_error =
    InvalidDiffFormat "string list"
  | EmptySearchNeedsStartLine
  | EmptySearchNeedsSameLine int int
  | InvalidLineRange int int nat
  | NoSufficientMatch int int string string

subsection \<open>Lines\<close>

definition cons_head :: "char \<Rightarrow> string list \<Rightarrow> string list" where
  "cons_head c ls = (case ls of [] \<Rightarrow> [[c]] | y # ys \<Rightarrow> (c # y) # ys)"

text \<open>\<open>s.split(/\r?\n/)\<close>.\<close>

fun split_lines :: "string \<Rightarrow> string list" where
  "split_lines [] = [[]]"
| "split_lines [c] = (if c = CHR 0x0A then [[], []] else [[c]])"
| "split_lines (c # d # cs) =
     (if c = CHR 0x0A then [] # split_lines (d # cs)
      else if c = CHR 0x0D \<and> d = CHR 0x0A then [] # split_lines cs
      else cons_head c (split_lines (d # cs)))"

definition truthy :: "int option \<Rightarrow> bool" where
  "truthy n \<longleftrightarrow> (case n of None \<Rightarrow> False | Some v \<Rightarrow> v \<noteq> 0)"

text \<open>
  \<open>everyLineHasLineNumbers\<close> and \<open>stripLineNumbers\<close> are imported from
  integrations/misc/extract-text; the strategy takes them as they are, and so does the
  model, as the two fields of this record.
\<close>

record extract_text =
  everyLineHasLineNumbers :: "string \<Rightarrow> bool"
  stripLineNumbers :: "string \<Rightarrow> string"

subsection \<open>\<open>applyDiff\<close>\<close>

definition sr_missing_markers :: "string \<Rightarrow> string list" where
  "sr_missing_markers diffContent =
     (if \<not> includes_str diffContent searchMarker
      then [''Missing start marker '' @ [CHR 0x27] @ searchMarker @ [CHR 0x27]] else [])
     @ (if \<not> includes_str diffContent dividerMarker
        then [''Missing divider '' @ [CHR 0x27] @ dividerMarker @ [CHR 0x27]] else [])
     @ (if \<not> includes_str diffContent replaceMarker
        then [''Missing end marker '' @ [CHR 0x27] @ replaceMarker @ [CHR 0x27]] else [])"

definition opt_start :: "Options option \<Rightarrow> int option" where
  "opt_start options = (case options of None \<Rightarrow> None | Some opts \<Rightarrow> opt_startLine opts)"

definition opt_end :: "Options option \<Rightarrow> int option" where
  "opt_end options = (case options of None \<Rightarrow> None | Some opts \<Rightarrow> opt_endLine opts)"

text \<open>
  From the match of the block to the two guards on an empty search section. What it
  returns on success: \<open>searchLines\<close>, \<open>replaceLines\<close>, \<open>originalLines\<close> and
  \<open>lineEnding\<close>.
\<close>

definition sr_preamble ::
  "extract_text \<Rightarrow> string \<Rightarrow> string \<Rightarrow> Options option
   \<Rightarrow> sr_error + (string list \<times> string list \<times> string list \<times> string)" where
  "sr_preamble X originalContent diffContent options =
     (case diffRegex_match diffContent of
        None \<Rightarrow> Inl (InvalidDiffFormat (sr_missing_markers diffContent))
      | Some (searchContent0, replaceContent0) \<Rightarrow>
          let lineEnding = (if includes_str originalContent [CHR 0x0D, CHR 0x0A]
                            then [CHR 0x0D, CHR 0x0A] else [CHR 0x0A]);
              numbered = (everyLineHasLineNumbers X searchContent0
                          \<and> everyLineHasLineNumbers X replaceContent0);
              searchContent = (if numbered then stripLineNumbers X searchContent0
                               else searchContent0);
              replaceContent = (if numbered then stripLineNumbers X replaceContent0
                                else replaceContent0);
              searchLines = (if searchContent = [] then [] else split_lines searchContent);
              replaceLines = (if replaceContent = [] then [] else split_lines replaceContent);
              originalLines = split_lines originalContent
          in if searchLines = [] \<and> \<not> truthy (opt_start options)
             then Inl EmptySearchNeedsStartLine
             else (case (opt_start options, opt_end options) of
                     (Some startLine, Some endLine) \<Rightarrow>
                       if searchLines = [] \<and> startLine \<noteq> 0 \<and> endLine \<noteq> 0
                          \<and> startLine \<noteq> endLine
                       then Inl (EmptySearchNeedsSameLine startLine endLine)
                       else Inr (searchLines, replaceLines, originalLines, lineEnding)
                   | _ \<Rightarrow> Inr (searchLines, replaceLines, originalLines, lineEnding)))"

text \<open>
  The scan of the windows from index \<open>i\<close> on. \<open>best\<close> is \<open>matchIndex\<close>,
  \<open>bestMatchScore\<close> and \<open>bestMatchContent\<close>. The literal \<open>0.95\<close> is the double nearest
  to 95/100.
\<close>

function scan_loop ::
  "string list \<Rightarrow> string \<Rightarrow> nat \<Rightarrow> int \<Rightarrow> int \<Rightarrow> int \<times> rat \<times> string \<Rightarrow> sim_cache
   \<Rightarrow> (int \<times> rat \<times> string) \<times> sim_cache" where
  "scan_loop originalLines searchChunk windowSize maxIndex i best c =
     (if i < maxIndex
      then (let chunk = join [CHR 0x0A] (slice originalLines (nat i) (nat i + windowSize))
            in if murmurHash3 chunk = murmurHash3 searchChunk
               then ((i, 1, chunk), c)
               else if i mod 3 = 0
               then (case getSimilarity c chunk searchChunk of
                       (similarity, c1) \<Rightarrow>
                         let best1 = (if similarity > fst (snd best)
                                      then (i, similarity, chunk) else best)
                         in if fst (snd best1) \<ge> fl (95 / 100)
                            then (best1, c1)
                            else scan_loop originalLines searchChunk windowSize maxIndex
                                   (i + 1) best1 c1)
               else scan_loop originalLines searchChunk windowSize maxIndex (i + 1) best c)
      else (best, c))"
  by pat_completeness auto
termination
  by (relation "measure (\<lambda>(ol, sc, w, mx, i, b, c). nat (mx - i))") auto

declare scan_loop.simps [simp del]

text \<open>
  From \<open>let matchIndex = -1\<close> to the end of the scan: the addressed range first, when
  both line numbers are given, then the windows.
\<close>

definition sr_locate ::
  "rat \<Rightarrow> nat \<Rightarrow> sim_cache \<Rightarrow> string list \<Rightarrow> string list \<Rightarrow> int option \<Rightarrow> int option
   \<Rightarrow> sr_error + ((int \<times> rat \<times> string) \<times> sim_cache)" where
  "sr_locate fuzzyThreshold bufferLines c searchLines originalLines startLine endLine =
     (let searchChunk = join [CHR 0x0A] searchLines;
          windowSize = length searchLines;
          len = int (length originalLines)
      in if truthy startLine \<and> truthy endLine
         then (case (startLine, endLine) of
                 (Some sl, Some el) \<Rightarrow>
                   let exactStartIndex = sl - 1; exactEndIndex = el - 1
                   in if exactStartIndex < 0 \<or> exactEndIndex > len
                         \<or> exactStartIndex > exactEndIndex
                      then Inl (InvalidLineRange sl el (length originalLines))
                      else (let originalChunk =
                                  join [CHR 0x0A]
                                    (slice originalLines (nat exactStartIndex)
                                       (nat (exactEndIndex + 1)))
                            in case getSimilarity c originalChunk searchChunk of
                                 (similarity, c1) \<Rightarrow>
                                   if similarity \<ge> fuzzyThreshold
                                   then Inr ((exactStartIndex, similarity, originalChunk), c1)
                                   else (let searchStartIndex =
                                               max 0 (sl - (int bufferLines + 1));
                                             searchEndIndex = min len (el + int bufferLines)
                                         in Inr (scan_loop originalLines searchChunk windowSize
                                                   (searchEndIndex - int windowSize + 1)
                                                   searchStartIndex (- 1, 0, []) c1)))
               | _ \<Rightarrow> Inr ((- 1, 0, []), c))
         else Inr (scan_loop originalLines searchChunk windowSize
                     (len - int windowSize + 1) 0 (- 1, 0, []) c))"

definition getIndent :: "string \<Rightarrow> string" where
  "getIndent line = takeWhile (\<lambda>c. c = CHR 0x09 \<or> c = CHR '' '') line"

definition first_or_empty :: "string list \<Rightarrow> string" where
  "first_or_empty ls = (case ls of [] \<Rightarrow> [] | l # _ \<Rightarrow> l)"

definition indentReplaceLines :: "string list \<Rightarrow> string list \<Rightarrow> string list \<Rightarrow> string list" where
  "indentReplaceLines matchedLines searchLines replaceLines =
     (let originalIndent = getIndent (first_or_empty matchedLines);
          searchBaseIndent = getIndent (first_or_empty searchLines);
          searchBaseLevel = length searchBaseIndent
      in map (\<lambda>line.
           let currentIndent = getIndent line;
               currentLevel = length currentIndent;
               relativeLevel = int currentLevel - int searchBaseLevel;
               finalIndent =
                 (if relativeLevel < 0
                  then take (nat (max 0 (int (length originalIndent) + relativeLevel)))
                         originalIndent
                  else originalIndent @ drop searchBaseLevel currentIndent)
           in finalIndent @ trim line) replaceLines)"

definition sr_splice ::
  "string list \<Rightarrow> string list \<Rightarrow> string list \<Rightarrow> string \<Rightarrow> nat \<Rightarrow> string \<times> nat" where
  "sr_splice searchLines replaceLines originalLines lineEnding matchIndex =
     (let matchedLines = slice originalLines matchIndex (matchIndex + length searchLines);
          indentedReplaceLines = indentReplaceLines matchedLines searchLines replaceLines;
          finalParts =
            (if matchIndex > 0 then [join lineEnding (slice originalLines 0 matchIndex)] else [])
            @ [join lineEnding indentedReplaceLines]
            @ (if matchIndex + length searchLines < length originalLines
               then [join lineEnding (drop (matchIndex + length searchLines) originalLines)]
               else [])
      in (join lineEnding finalParts, length indentedReplaceLines))"

text \<open>
  \<open>applyDiff\<close> of a strategy instance with the given \<open>fuzzyThreshold\<close> and
  \<open>bufferLines\<close>, on the similarity cache as the call finds it; it returns the result
  and the cache as the call leaves it.
\<close>

definition SearchReplace_applyDiff ::
  "extract_text \<Rightarrow> rat \<Rightarrow> nat \<Rightarrow> sim_cache \<Rightarrow> string \<Rightarrow> string \<Rightarrow> Options option
   \<Rightarrow> sr_error DiffResult \<times> sim_cache" where
  "SearchReplace_applyDiff X fuzzyThreshold bufferLines c originalContent diffContent options =
     (case sr_preamble X originalContent diffContent options of
        Inl e \<Rightarrow> (Failure e, c)
      | Inr (searchLines, replaceLines, originalLines, lineEnding) \<Rightarrow>
          (case sr_locate fuzzyThreshold bufferLines c searchLines originalLines
                  (opt_start options) (opt_end options) of
             Inl e \<Rightarrow> (Failure e, c)
           | Inr ((matchIndex, bestMatchScore, bestMatchContent), c1) \<Rightarrow>
               if matchIndex = - 1 \<or> bestMatchScore < fuzzyThreshold
               then (Failure (NoSufficientMatch (floor_percent bestMatchScore)
                                (floor_percent fuzzyThreshold)
                                (join [CHR 0x0A] searchLines) bestMatchContent), c1)
               else (case sr_splice searchLines replaceLines originalLines lineEnding
                            (nat matchIndex) of
                       (finalContent, n) \<Rightarrow>
                         (Success finalContent n
                            (if (case options of None \<Rightarrow> False
                                 | Some opts \<Rightarrow> opt_collectMetrics opts)
                             then Some bestMatchScore else None), c1))))"

text \<open>
  Modelled from the spec: \<open>everyLineHasLineNumbers\<close> and \<open>stripLineNumbers\<close> of
  integrations/misc/extract-text, which is not among the sources. The spec (4.2, step 2):
  "If every line of both sections carries a leading line-number prefix, strip it"; the
  prefix is that of the line-numbered rendering in the tool description,
  \<open>1 | def calculate_total(items):\<close>: optional blanks, digits, blanks, a bar, and the
  one blank after it.
\<close>

definition line_number_rest :: "string \<Rightarrow> string option" where
  "line_number_rest line =
     (let r1 = dropWhile is_ws line;
          ds = takeWhile is_digit r1;
          r2 = dropWhile is_digit r1;
          r3 = dropWhile is_ws r2
      in if ds = [] \<or> r3 = r2 then None
         else (case r3 of
                 [] \<Rightarrow> None
               | b # r4 \<Rightarrow> if b = CHR ''|'' then Some (if prefix '' '' r4 then drop 1 r4 else r4)
                            else None))"

text \<open>
  Modelled from the spec: the two functions of integrations/misc/extract-text together,
  over the prefix above.
\<close>

definition extract_text_model :: extract_text where
  "extract_text_model =
     \<lparr> everyLineHasLineNumbers =
         (\<lambda>content. list_all (\<lambda>l. line_number_rest l \<noteq> None) (split_lines content)),
       stripLineNumbers =
         (\<lambda>content. join [CHR 0x0A]
            (map (\<lambda>l. case line_number_rest l of None \<Rightarrow> l | Some r \<Rightarrow> r)
               (split_lines content))) \<rparr>"

section \<open>The Smart Hybrid strategy (smart-hybrid.ts)\<close>

subsection \<open>What the strategy takes from Node\<close>

text \<open>
  The digests \<open>createHash("sha1")\<close> and \<open>createHash("sha256")\<close>, the decoding of a
  base64 string into bytes (\<open>Buffer.from(s, "base64")\<close>, a byte being a character
  here) and of bytes into text (\<open>toString()\<close>) are Node's. The three normalizers of a
  line of Go (\<open>extractGoFuncSignature\<close>, \<open>extractGoTypeDefinition\<close>,
  \<open>normalizeGoImports\<close>) are regular-expression rewrites of one line whose result is
  only ever fed to the structural digest. All of these are parameters: what is proved
  holds for every choice of them.
\<close>

record node_env =
  sha1 :: "string \<Rightarrow> string"
  sha256 :: "string \<Rightarrow> string"
  from_base64 :: "string \<Rightarrow> string"
  bytes_toString :: "string \<Rightarrow> string"
  extractGoFuncSignature :: "string \<Rightarrow> string"
  extractGoTypeDefinition :: "string \<Rightarrow> string"
  normalizeGoImports :: "string \<Rightarrow> string"

subsection \<open>Hashes and cache entries\<close>

record HybridHash =
  structural :: string
  semantic :: string
  chunks :: "string list"

record CacheEntry =
  hash_entry :: HybridHash
  result_entry :: string
  timestamp :: nat

definition CHUNK_SIZE_SH :: nat where
  "CHUNK_SIZE_SH = 64"

definition CACHE_MAX_SIZE :: nat where
  "CACHE_MAX_SIZE = 10000"

definition CACHE_TTL :: nat where
  "CACHE_TTL = 1000 * 60 * 60"

text \<open>
  The hot cache is an \<open>LRUCache\<close> of the package lru-cache with \<open>max\<close>, \<open>ttl\<close> and
  \<open>updateAgeOnGet\<close>: entries in order of use, least recent first, each with the time
  its age counts from. \<open>get\<close> drops an entry older than the time to live and answers
  \<open>undefined\<close>; otherwise it renews the entry. \<open>set\<close> evicts the least recent entry
  of a full cache.
\<close>

type_synonym hot_cache = "(string \<times> CacheEntry \<times> nat) list"

definition hot_get :: "hot_cache \<Rightarrow> nat \<Rightarrow> string \<Rightarrow> CacheEntry option \<times> hot_cache" where
  "hot_get h now key =
     (case map_of h key of
        None \<Rightarrow> (None, h)
      | Some (e, t0) \<Rightarrow>
          if now - t0 > CACHE_TTL then (None, filter (\<lambda>p. fst p \<noteq> key) h)
          else (Some e, filter (\<lambda>p. fst p \<noteq> key) h @ [(key, e, now)]))"

definition hot_set :: "hot_cache \<Rightarrow> nat \<Rightarrow> string \<Rightarrow> CacheEntry \<Rightarrow> hot_cache" where
  "hot_set h now key e =
     (let h1 = filter (\<lambda>p. fst p \<noteq> key) h;
          h2 = (if length h1 \<ge> CACHE_MAX_SIZE then drop 1 h1 else h1)
      in h2 @ [(key, e, now)])"

text \<open>
  The warm cache is a \<open>WeakMap\<close>: its keys are objects, compared by identity. An object
  is its address; \<open>next_obj\<close> is the address the next object literal gets. (Entries
  whose key is garbage may vanish from a \<open>WeakMap\<close>; here they stay.)
\<close>

record SmartHybrid =
  hotCache :: hot_cache
  warmCache :: "(nat \<times> CacheEntry) list"
  next_obj :: nat

definition SmartHybrid_new :: SmartHybrid where
  "SmartHybrid_new = \<lparr> hotCache = [], warmCache = [], next_obj = 0 \<rparr>"

subsection \<open>The private methods\<close>

function chunkContent :: "string \<Rightarrow> string list" where
  "chunkContent content =
     (if content = [] then []
      else take CHUNK_SIZE_SH content # chunkContent (drop CHUNK_SIZE_SH content))"
  by pat_completeness auto
termination
  by (relation "measure length") (auto simp: CHUNK_SIZE_SH_def)

declare chunkContent.simps [simp del]

text \<open>What the loop of \<open>generateHybridHash\<close> feeds the structural digest for one line.\<close>

definition structural_line :: "node_env \<Rightarrow> string option \<Rightarrow> string \<Rightarrow> string" where
  "structural_line E fileExt line =
     (let trimmedLine = trim line
      in if fileExt = Some ''go''
         then (if prefix ''func '' trimmedLine
               then ''func:'' @ extractGoFuncSignature E trimmedLine
               else if prefix ''type '' trimmedLine
               then ''type:'' @ extractGoTypeDefinition E trimmedLine
               else if prefix ''package '' trimmedLine
               then ''package:'' @ (case split_char CHR '' '' trimmedLine of
                                      a # b # r \<Rightarrow> b
                                    | _ \<Rightarrow> ''undefined'')
               else if prefix ''import '' trimmedLine
               then ''import:'' @ normalizeGoImports E trimmedLine
               else trimmedLine)
         else trimmedLine)"

definition generateHybridHash :: "node_env \<Rightarrow> string \<Rightarrow> FileStats option \<Rightarrow> HybridHash" where
  "generateHybridHash E content fileStats =
     (let lines = split_char CHR 0x0A content;
          fileExt = map_option (\<lambda>fs. path_ext (path_fs fs)) fileStats
      in \<lparr> structural = sha1 E (concat (map (structural_line E fileExt) lines)),
           semantic = sha256 E content,
           chunks = map (sha1 E) (chunkContent content) \<rparr>)"

definition getCacheKey :: "node_env \<Rightarrow> HybridHash \<Rightarrow> string \<Rightarrow> string" where
  "getCacheKey E h diffContent = structural h @ '':'' @ semantic h @ '':'' @ sha1 E diffContent"

definition hashesMatch :: "HybridHash \<Rightarrow> HybridHash \<Rightarrow> bool" where
  "hashesMatch a b \<longleftrightarrow>
     structural a = structural b \<and> semantic a = semantic b \<and> chunks a = chunks b"

text \<open>
  \<open>parseDiffContent\<close>: two expressions, each searched for on its own;
  \<open>None\<close> is the throw of "Invalid diff format".
\<close>

definition searchMatch_here :: "string \<Rightarrow> string option" where
  "searchMatch_here s =
     Option.bind (strip_prefix (searchMarker @ [CHR 0x0A]) s)
       (\<lambda>r. map_option fst
          (lazy_then (strip_prefix ([CHR 0x0A] @ dividerMarker @ [CHR 0x0A])) r))"

definition replaceMatch_here :: "string \<Rightarrow> string option" where
  "replaceMatch_here s =
     Option.bind (strip_prefix (dividerMarker @ [CHR 0x0A]) s)
       (\<lambda>r. map_option fst (lazy_then (strip_prefix ([CHR 0x0A] @ replaceMarker)) r))"

definition parseDiffContent :: "string \<Rightarrow> (string \<times> string) option" where
  "parseDiffContent diffContent =
     (case (regex_search searchMatch_here diffContent,
            regex_search replaceMatch_here diffContent) of
        (Some searchContent, Some replaceContent) \<Rightarrow> Some (searchContent, replaceContent)
      | _ \<Rightarrow> None)"

definition isCborEncoded :: "node_env \<Rightarrow> string \<Rightarrow> bool" where
  "isCborEncoded E content \<longleftrightarrow>
     prefix ''base64:'' content
     \<and> (case from_base64 E (drop 7 content) of [] \<Rightarrow> False | b # _ \<Rightarrow> of_char b = (0xd9::nat))"

definition decodeCbor :: "node_env \<Rightarrow> string \<Rightarrow> string" where
  "decodeCbor E content = bytes_toString E (drop 2 (from_base64 E (drop 7 content)))"

text \<open>\<open>s.replace(/\r\n/g, "\n")\<close>.\<close>

fun crlf_to_lf :: "string \<Rightarrow> string" where
  "crlf_to_lf (c # d # cs) =
     (if c = CHR 0x0D \<and> d = CHR 0x0A then CHR 0x0A # crlf_to_lf cs
      else c # crlf_to_lf (d # cs))"
| "crlf_to_lf cs = cs"

text \<open>
  \<open>s.replace(pattern, replacement)\<close> with two strings: the first occurrence is
  replaced, and in the replacement \<open>$$\<close>, \<open>$&\<close>, \<open>$`\<close> and \<open>$'\<close> stand for a
  dollar, the match, the text before it and the text after it.
\<close>

fun expand_replacement :: "string \<Rightarrow> string \<Rightarrow> string \<Rightarrow> string \<Rightarrow> string" where
  "expand_replacement m before after (c # d # cs) =
     (if c = CHR ''$'' \<and> d = CHR ''$'' then CHR ''$'' # expand_replacement m before after cs
      else if c = CHR ''$'' \<and> d = CHR ''&'' then m @ expand_replacement m before after cs
      else if c = CHR ''$'' \<and> d = CHR 0x60 then before @ expand_replacement m before after cs
      else if c = CHR ''$'' \<and> d = CHR 0x27 then after @ expand_replacement m before after cs
      else c # expand_replacement m before after (d # cs))"
| "expand_replacement m before after cs = cs"

fun replace_from :: "string \<Rightarrow> string \<Rightarrow> string \<Rightarrow> string \<Rightarrow> string" where
  "replace_from before [] pat rep =
     (if pat = [] then before @ expand_replacement pat before [] rep else before)"
| "replace_from before (c # cs) pat rep =
     (if prefix pat (c # cs)
      then before @ expand_replacement pat before (drop (length pat) (c # cs)) rep
             @ drop (length pat) (c # cs)
      else replace_from (before @ [c]) cs pat rep)"

definition replace_str :: "string \<Rightarrow> string \<Rightarrow> string \<Rightarrow> string" where
  "replace_str s pat rep = replace_from [] s pat rep"

definition createSuccessResult :: "string \<Rightarrow> bool \<Rightarrow> string DiffResult" where
  "createSuccessResult cont metrics =
     Success cont (length (split_char CHR 0x0A cont)) (if metrics then Some 1 else None)"

subsection \<open>\<open>applyDiff\<close>\<close>

text \<open>
  The content the strategy works on, and the lookup in the hot cache at time \<open>now\<close>.
\<close>

definition sh_content :: "node_env \<Rightarrow> string \<Rightarrow> string" where
  "sh_content E originalContent =
     (if isCborEncoded E originalContent then decodeCbor E originalContent
      else originalContent)"

definition sh_fileStats :: "Options option \<Rightarrow> FileStats option" where
  "sh_fileStats options = (case options of None \<Rightarrow> None | Some opts \<Rightarrow> opt_fileStats opts)"

definition sh_cacheKey :: "node_env \<Rightarrow> string \<Rightarrow> string \<Rightarrow> Options option \<Rightarrow> string" where
  "sh_cacheKey E originalContent diffContent options =
     getCacheKey E (generateHybridHash E (sh_content E originalContent) (sh_fileStats options))
       diffContent"

text \<open>
  \<open>const contentKey = { content: originalContent }\<close> allocates; the lookup
  \<open>this.warmCache.get(contentKey)\<close> is with the object just made.
\<close>

definition warm_lookup :: "SmartHybrid \<Rightarrow> CacheEntry option" where
  "warm_lookup st = map_of (warmCache st) (next_obj st)"

text \<open>\<open>applyDiff\<close> from "Process content in chunks" on: both caches have missed.\<close>

definition sh_recompute ::
  "SmartHybrid \<Rightarrow> nat \<Rightarrow> nat \<Rightarrow> HybridHash \<Rightarrow> string \<Rightarrow> bool \<Rightarrow> string \<Rightarrow> string \<Rightarrow> string
   \<Rightarrow> string DiffResult \<times> SmartHybrid" where
  "sh_recompute st1 now contentKey hash cacheKey metrics originalContent searchContent
     replaceContent =
     (let normalizedSearchContent = crlf_to_lf searchContent;
          normalizedOriginalContent = crlf_to_lf originalContent
      in if includes_str normalizedOriginalContent normalizedSearchContent
         then (let processedContent =
                     replace_str normalizedOriginalContent normalizedSearchContent
                       (crlf_to_lf replaceContent);
                   cacheEntry = \<lparr> hash_entry = hash, result_entry = processedContent,
                                  timestamp = now \<rparr>
               in (createSuccessResult processedContent metrics,
                   st1\<lparr> hotCache := hot_set (hotCache st1) now cacheKey cacheEntry,
                        warmCache := (contentKey, cacheEntry) # warmCache st1 \<rparr>))
         else (Failure ''Search content not found in original content'', st1))"

definition SmartHybrid_applyDiff ::
  "node_env \<Rightarrow> SmartHybrid \<Rightarrow> nat \<Rightarrow> string \<Rightarrow> string \<Rightarrow> Options option
   \<Rightarrow> string DiffResult \<times> SmartHybrid" where
  "SmartHybrid_applyDiff E st now originalContent0 diffContent options =
     (let metrics = (case options of None \<Rightarrow> False | Some opts \<Rightarrow> opt_collectMetrics opts);
          originalContent = sh_content E originalContent0
      in case parseDiffContent diffContent of
           None \<Rightarrow> (Failure ''Invalid diff format'', st)
         | Some (searchContent, replaceContent) \<Rightarrow>
             let hash = generateHybridHash E originalContent (sh_fileStats options);
                 cacheKey = getCacheKey E hash diffContent
             in case hot_get (hotCache st) now cacheKey of
                  (Some hotCacheHit, hot1) \<Rightarrow>
                    (createSuccessResult (result_entry hotCacheHit) metrics,
                     st\<lparr> hotCache := hot1 \<rparr>)
                | (None, hot1) \<Rightarrow>
                    let contentKey = next_obj st;
                        warmCacheHit = warm_lookup st;
                        st1 = st\<lparr> hotCache := hot1, next_obj := Suc (next_obj st) \<rparr>
                    in case warmCacheHit of
                         Some w \<Rightarrow>
                           if hashesMatch (hash_entry w) hash
                           then (createSuccessResult (result_entry w) metrics, st1)
                           else sh_recompute st1 now contentKey hash cacheKey metrics
                                  originalContent searchContent replaceContent
                       | None \<Rightarrow>
                           sh_recompute st1 now contentKey hash cacheKey metrics
                             originalContent searchContent replaceContent)"

text \<open>A client of one strategy instance: calls of \<open>applyDiff\<close>, one after the other.\<close>

record sh_call =
  call_now :: nat
  call_original :: string
  call_diff :: string
  call_options :: "Options option"

definition sh_step :: "node_env \<Rightarrow> SmartHybrid \<Rightarrow> sh_call \<Rightarrow> SmartHybrid" where
  "sh_step E st call =
     snd (SmartHybrid_applyDiff E st (call_now call) (call_original call) (call_diff call)
            (call_options call))"

definition sh_run :: "node_env \<Rightarrow> sh_call list \<Rightarrow> SmartHybrid" where
  "sh_run E calls = foldl (sh_step E) SmartHybrid_new calls"

section \<open>Predicates of the statements\<close>

text \<open>Every key of the warm cache is an object allocated before.\<close>

definition warm_inv :: "SmartHybrid \<Rightarrow> bool" where
  "warm_inv st \<longleftrightarrow> (\<forall>k \<in> fst ` set (warmCache st). k < next_obj st)"

text \<open>
  An environment to evaluate Smart Hybrid with: every digest and decoder is the
  identity.
\<close>

definition plain_env :: node_env where
  "plain_env = \<lparr> sha1 = (\<lambda>s. s), sha256 = (\<lambda>s. s), from_base64 = (\<lambda>s. s),
                 bytes_toString = (\<lambda>s. s), extractGoFuncSignature = (\<lambda>s. s),
                 extractGoTypeDefinition = (\<lambda>s. s), normalizeGoImports = (\<lambda>s. s) \<rparr>"

text \<open>
  The similarity cache holds no score of 1 for the search block: the value of every
  entry whose key ends in \<open>|\<close> and the block is a double below 1.
\<close>

definition cache_below_1 :: "string \<Rightarrow> sim_cache \<Rightarrow> bool" where
  "cache_below_1 search c \<longleftrightarrow>
     list_all (\<lambda>p. suffix (''|'' @ search) (fst p) \<longrightarrow> is_double (snd p) \<and> snd p < 1)
       (cache c)"

text \<open>
  The three ways in which Search-Replace takes a region for the search block at score 1
  without comparing the two: equal hashes, equal after normalizing white space, equal
  hashes after normalizing.
\<close>

definition similar_at_1 :: "string \<Rightarrow> string \<Rightarrow> bool" where
  "similar_at_1 chunk search \<longleftrightarrow>
     murmurHash3 chunk = murmurHash3 search
     \<or> normalizeStr chunk = normalizeStr search
     \<or> murmurHash3 (normalizeStr chunk) = murmurHash3 (normalizeStr search)"

text \<open>No run of whole lines of the original is taken for the search block in that way.\<close>

definition no_region_similar :: "string list \<Rightarrow> string \<Rightarrow> bool" where
  "no_region_similar originalLines searchChunk \<longleftrightarrow>
     list_all (\<lambda>a. list_all (\<lambda>b.
         \<not> similar_at_1 (join [CHR 0x0A] (slice originalLines a b)) searchChunk)
       [0..<Suc (length originalLines)]) [0..<Suc (length originalLines)]"







section \<open>The similarity cache is bounded\<close>

lemma js_map_set_keys:
  "map fst (js_map_set m k v) = (if k \<in> fst ` set m then map fst m else map fst m @ [k])"
  by (induction m) force+

lemma js_map_set_length:
  "length (js_map_set m k v) = (if k \<in> fst ` set m then length m else Suc (length m))"
  by (induction m) force+

lemma js_map_delete_keys: "map fst (js_map_delete m k) = removeAll k (map fst m)"
  by (induction m) (auto simp: js_map_delete_def)

lemma js_map_delete_length_present:
  "distinct (map fst m) \<Longrightarrow> k \<in> fst ` set m \<Longrightarrow> Suc (length (js_map_delete m k)) = length m"
proof -
  assume d: "distinct (map fst m)" and k: "k \<in> fst ` set m"
  have "length (js_map_delete m k) = length (removeAll k (map fst m))"
    by (metis js_map_delete_keys length_map)
  also have "\<dots> = length (map fst m) - 1"
    using d k by (simp add: distinct_remove1_removeAll [symmetric] length_remove1)
  finally show ?thesis using k by (cases m) auto
qed

lemma js_map_get_present: "js_map_get m k = Some v \<Longrightarrow> k \<in> fst ` set m"
  by (auto simp: js_map_get_def dest: map_of_SomeD intro: rev_image_eqI)

lemma cache_inv_new: "cache_inv (LRUCache_new n)"
  by (simp add: cache_inv_def LRUCache_new_def)

lemma maxSize_get [simp]: "maxSize (snd (LRUCache_get c k)) = maxSize c"
  by (simp add: LRUCache_get_def split: option.splits)

lemma maxSize_set [simp]: "maxSize (LRUCache_set c k v) = maxSize c"
  by (simp add: LRUCache_set_def Let_def)

lemma maxSize_clear [simp]: "maxSize (LRUCache_clear c) = maxSize c"
  by (simp add: LRUCache_clear_def)

lemma cache_inv_get: "cache_inv c \<Longrightarrow> cache_inv (snd (LRUCache_get c k))"
proof (cases "js_map_get (cache c) k")
  case None
  assume "cache_inv c"
  with None show ?thesis by (simp add: LRUCache_get_def)
next
  case (Some v)
  assume inv: "cache_inv c"
  have pres: "k \<in> fst ` set (cache c)" using Some by (rule js_map_get_present)
  have d: "distinct (map fst (cache c))" using inv by (simp add: cache_inv_def)
  have len: "Suc (length (js_map_delete (cache c) k)) = length (cache c)"
    using d pres by (rule js_map_delete_length_present)
  have notin: "k \<notin> fst ` set (js_map_delete (cache c) k)"
    by (auto simp: js_map_delete_def)
  have "distinct (map fst (js_map_set (js_map_delete (cache c) k) k v))"
    using d notin by (simp add: js_map_set_keys js_map_delete_keys distinct_removeAll)
  moreover have "length (js_map_set (js_map_delete (cache c) k) k v) = length (cache c)"
    using notin len by (simp add: js_map_set_length)
  ultimately show ?thesis
    using inv Some by (simp add: LRUCache_get_def cache_inv_def)
qed

lemma cache_inv_set:
  assumes inv: "cache_inv c" and pos: "1 \<le> maxSize c"
  shows "cache_inv (LRUCache_set c k v)"
proof -
  define m1 where "m1 = (if length (cache c) \<ge> maxSize c
                then (case js_map_first_key (cache c) of
                        None \<Rightarrow> cache c
                      | Some firstKey \<Rightarrow> js_map_delete (cache c) firstKey)
                else cache c)"
  have d: "distinct (map fst (cache c))" and le: "length (cache c) \<le> maxSize c"
    using inv by (simp_all add: cache_inv_def)
  have d1: "distinct (map fst m1)"
    using d by (auto simp: m1_def js_map_delete_keys distinct_removeAll split: option.splits)
  have l1: "length m1 < maxSize c"
  proof (cases "length (cache c) \<ge> maxSize c")
    case False
    then show ?thesis by (simp add: m1_def)
  next
    case True
    then obtain p ps where c: "cache c = p # ps" using pos by (cases "cache c") auto
    have "Suc (length (js_map_delete (cache c) (fst p))) = length (cache c)"
      using d by (intro js_map_delete_length_present) (auto simp: c)
    then show ?thesis using True le by (simp add: m1_def c js_map_first_key_def)
  qed
  have "distinct (map fst (js_map_set m1 k v))"
    using d1 by (simp add: js_map_set_keys)
  moreover have "length (js_map_set m1 k v) \<le> maxSize c"
    using l1 by (simp add: js_map_set_length)
  moreover have "LRUCache_set c k v = c\<lparr> cache := js_map_set m1 k v \<rparr>"
    by (simp add: LRUCache_set_def m1_def)
  ultimately show ?thesis by (simp add: cache_inv_def)
qed

lemma cache_inv_clear: "cache_inv c \<Longrightarrow> cache_inv (LRUCache_clear c)"
  by (simp add: cache_inv_def LRUCache_clear_def)

lemma maxSize_step [simp]: "maxSize (cache_step c x) = maxSize c"
  by (cases x) simp_all

lemma cache_inv_step: "cache_inv c \<Longrightarrow> 1 \<le> maxSize c \<Longrightarrow> cache_inv (cache_step c x)"
  by (cases x) (simp_all add: cache_inv_get cache_inv_set cache_inv_clear)

lemma cache_inv_run:
  "cache_inv c \<Longrightarrow> 1 \<le> maxSize c \<Longrightarrow>
   cache_inv (cache_run c ops) \<and> maxSize (cache_run c ops) = maxSize c"
  unfolding cache_run_def
  by (induction ops arbitrary: c) (simp_all add: cache_inv_step)

lemma LRUCache_set_at_capacity:
  assumes "cache_inv c" and "maxSize c \<le> length (cache c)" and "cache c = (fk, fv) # rest"
  shows "LRUCache_set c k v = c\<lparr> cache := js_map_set rest k v \<rparr>"
proof -
  have "fk \<notin> fst ` set rest" using assms(1,3) by (auto simp: cache_inv_def)
  then have "filter (\<lambda>p. fst p \<noteq> fk) rest = rest"
    by (intro filter_True) auto
  then show ?thesis
    using assms(2,3) by (simp add: LRUCache_set_def js_map_first_key_def js_map_delete_def)
qed

text \<open>
  C9. Whatever sequence of \<open>get\<close>, \<open>set\<close> and \<open>clear\<close> runs on a cache made with
  \<open>maxSize \<ge> 1\<close>, after every operation (every prefix of the sequence) the cache holds
  at most \<open>maxSize\<close> entries; a \<open>set\<close> on a full cache drops the first entry of the map,
  the one whose insertion is the oldest (a \<open>get\<close> that hits inserts its entry anew),
  before it stores; and so the shared \<open>similarityCache\<close> never holds more than 1000.
\<close>

theorem LRUCache_capacity_bounded:
  fixes ops :: "('k, 'v) cache_op list" and sops :: "(string, rat) cache_op list"
  assumes "1 \<le> n"
  shows "(\<forall>i \<le> length ops.
            LRUCache_size (cache_run (LRUCache_new n) (take i ops)) \<le> n)
       \<and> (\<forall>i \<le> length ops. \<forall>fk fv rest k v.
            (let c = cache_run (LRUCache_new n :: ('k, 'v) LRUCache) (take i ops)
             in n \<le> LRUCache_size c \<longrightarrow> cache c = (fk, fv) # rest \<longrightarrow>
                cache (LRUCache_set c k v) = js_map_set rest k v))
       \<and> LRUCache_size (cache_run similarityCache_init sops) \<le> 1000"
proof -
  have run: "cache_inv (cache_run (LRUCache_new n :: ('k, 'v) LRUCache) xs)
             \<and> maxSize (cache_run (LRUCache_new n :: ('k, 'v) LRUCache) xs) = n" for xs
    using cache_inv_run [OF cache_inv_new, of n xs] assms
    by (simp add: LRUCache_new_def)
  have a: "\<forall>i \<le> length ops. LRUCache_size (cache_run (LRUCache_new n) (take i ops)) \<le> n"
  proof (intro allI impI)
    fix i
    show "LRUCache_size (cache_run (LRUCache_new n) (take i ops)) \<le> n"
      using run [of "take i ops"] by (simp add: cache_inv_def LRUCache_size_def)
  qed
  have b: "\<forall>i \<le> length ops. \<forall>fk fv rest k v.
            (let c = cache_run (LRUCache_new n :: ('k, 'v) LRUCache) (take i ops)
             in n \<le> LRUCache_size c \<longrightarrow> cache c = (fk, fv) # rest \<longrightarrow>
                cache (LRUCache_set c k v) = js_map_set rest k v)"
  proof (intro allI impI)
    fix i fk fv rest k v
    let ?c = "cache_run (LRUCache_new n :: ('k, 'v) LRUCache) (take i ops)"
    have inv: "cache_inv ?c" and mx: "maxSize ?c = n" using run [of "take i ops"] by auto
    show "let c = ?c in n \<le> LRUCache_size c \<longrightarrow> cache c = (fk, fv) # rest \<longrightarrow>
                cache (LRUCache_set c k v) = js_map_set rest k v"
      unfolding Let_def
    proof (intro impI)
      assume "n \<le> LRUCache_size ?c" and c: "cache ?c = (fk, fv) # rest"
      then have "maxSize ?c \<le> length (cache ?c)" using mx by (simp add: LRUCache_size_def)
      from LRUCache_set_at_capacity [OF inv this c] show "cache (LRUCache_set ?c k v) = js_map_set rest k v"
        by simp
    qed
  qed
  have c: "LRUCache_size (cache_run similarityCache_init sops) \<le> 1000"
    using cache_inv_run [OF cache_inv_new, of MAX_CACHE_SIZE sops]
    by (simp add: cache_inv_def LRUCache_size_def similarityCache_init_def MAX_CACHE_SIZE_def
        LRUCache_new_def)
  from a b c show ?thesis by blast
qed

theorem LRUCache_capacity_bounded_witness:
  "(1::nat) \<le> 2
   \<and> (3::nat) \<le> length [Set ''a'' (1::nat), Set ''b'' 2, Get ''a'', Set ''c'' 3]
   \<and> LRUCache_size (cache_run (LRUCache_new 2)
        (take 3 [Set ''a'' (1::nat), Set ''b'' 2, Get ''a'', Set ''c'' 3])) \<le> 2
   \<and> 2 \<le> LRUCache_size (cache_run (LRUCache_new 2)
        (take 3 [Set ''a'' (1::nat), Set ''b'' 2, Get ''a'', Set ''c'' 3]))
   \<and> cache (cache_run (LRUCache_new 2)
        (take 3 [Set ''a'' (1::nat), Set ''b'' 2, Get ''a'', Set ''c'' 3]))
       = (''b'', 2) # [(''a'', 1)]
   \<and> cache (LRUCache_set (cache_run (LRUCache_new 2)
        (take 3 [Set ''a'' (1::nat), Set ''b'' 2, Get ''a'', Set ''c'' 3])) ''c'' 3)
       = js_map_set [(''a'', 1)] ''c'' 3"
  using LRUCache_capacity_bounded
          [of 2 "[Set ''a'' (1::nat), Set ''b'' 2, Get ''a'', Set ''c'' 3]" "[]"]
  by (simp add: cache_run_def LRUCache_new_def LRUCache_set_def LRUCache_get_def
      LRUCache_size_def js_map_get_def js_map_delete_def js_map_first_key_def)

section \<open>The selector's rules\<close>

lemma getDiffStrategy_large:
  "size_fs fs > 1024 * 1024 \<Longrightarrow>
   getDiffStrategy model (StatsArg fs) t e = ParallelDiffStrategy_new t"
  by (simp add: getDiffStrategy_def LARGE_FILE_THRESHOLD_def legacy_threshold_def)

lemma getDiffStrategy_ast:
  "\<not> size_fs fs > 1024 * 1024 \<Longrightarrow> path_fs fs \<noteq> [] \<Longrightarrow>
   path_ext (path_fs fs) \<in> {''js'', ''jsx'', ''ts'', ''tsx'', ''go''} \<Longrightarrow>
   getDiffStrategy model (StatsArg fs) t e = AstAwareStrategy_new t None"
  by (simp add: getDiffStrategy_def LARGE_FILE_THRESHOLD_def legacy_threshold_def
      hasAstSupport_def)

lemma getDiffStrategy_text:
  "size_fs fs \<noteq> 0 \<Longrightarrow> size_fs fs \<le> 1024 * 1024 \<Longrightarrow>
   path_ext (path_fs fs) \<in> {''json'', ''txt'', ''md'', ''yml'', ''yaml''} \<Longrightarrow>
   getDiffStrategy model (StatsArg fs) t e = SmartHybridStrategy_new"
  by (auto simp: getDiffStrategy_def LARGE_FILE_THRESHOLD_def legacy_threshold_def
      hasAstSupport_def)

lemma getDiffStrategy_other:
  "size_fs fs \<noteq> 0 \<Longrightarrow> size_fs fs \<le> 1024 * 1024 \<Longrightarrow>
   path_ext (path_fs fs) \<notin>
     {''js'', ''jsx'', ''ts'', ''tsx'', ''go'', ''json'', ''txt'', ''md'', ''yml'', ''yaml''} \<Longrightarrow>
   getDiffStrategy model (StatsArg fs) t e = OptimizedUnifiedStrategy_new t"
  by (auto simp: getDiffStrategy_def LARGE_FILE_THRESHOLD_def legacy_threshold_def
      hasAstSupport_def)

lemma getDiffStrategy_no_stats:
  "a = NoArg \<or> a = NumberArg n \<Longrightarrow>
   getDiffStrategy model a t e = SearchReplaceDiffStrategy_new (legacy_threshold a t) None"
  by (auto simp: getDiffStrategy_def hasAstSupport_def)

lemma AstAware_gate_rejects_go:
  "path_fs fs \<noteq> [] \<Longrightarrow> path_ext (path_fs fs) = ''go'' \<Longrightarrow>
   AstAware_language_gate (Some fs)
   = Some ''Failed to apply AST-aware diff: Language unknown is not supported for AST-aware diffing''"
  by (simp add: AstAware_language_gate_def detectLanguage_def isLanguageSupported_def)

lemma path_ext_main_go: "path_ext ''main.go'' = ''go''"
  by (simp add: path_ext_def toLowerCase_def toLowerCase_char_def)

lemma path_ext_a_json: "path_ext ''a.json'' = ''json''"
  by (simp add: path_ext_def toLowerCase_def toLowerCase_char_def)

text \<open>
  C1. The claim has the selector fail over to the next rule for a language without a
  parser, \<open>go\<close> being its example. The code at \<open>main.go\<close>, 100 bytes: the selector
  returns the AST-aware strategy, not Smart Hybrid (whose extension list names \<open>go\<close>),
  and that strategy's \<open>applyDiff\<close> fails at its language gate for every diff. At a
  known size of 0 the size rules are skipped too: \<open>a.json\<close> of 0 bytes gets
  Search-Replace.
\<close>

theorem getDiffStrategy_go_no_failover:
  "getDiffStrategy ''gpt-4''
     (StatsArg \<lparr> size_fs = 100, path_fs = ''main.go'', language = None, lastModified = 0 \<rparr>)
     (Some 1) False = AstAwareStrategy 1 50
   \<and> AstAware_language_gate
       (Some \<lparr> size_fs = 100, path_fs = ''main.go'', language = None, lastModified = 0 \<rparr>)
     = Some ''Failed to apply AST-aware diff: Language unknown is not supported for AST-aware diffing''
   \<and> getDiffStrategy ''gpt-4''
     (StatsArg \<lparr> size_fs = 0, path_fs = ''a.json'', language = None, lastModified = 0 \<rparr>)
     (Some 1) False = SearchReplaceDiffStrategy 1 20"
  by (simp add: getDiffStrategy_def hasAstSupport_def path_ext_main_go path_ext_a_json
      LARGE_FILE_THRESHOLD_def legacy_threshold_def AstAwareStrategy_new_def
      AstAware_language_gate_def detectLanguage_def isLanguageSupported_def
      SearchReplaceDiffStrategy_new_def BUFFER_LINES_def)

text \<open>
  C7, as the claim states it, fails at Smart Hybrid: the selector builds it with no
  argument, and the class has no threshold field.
\<close>

theorem getDiffStrategy_threshold_dropped:
  "getDiffStrategy ''gpt-4''
     (StatsArg \<lparr> size_fs = 10, path_fs = ''a.json'', language = None, lastModified = 0 \<rparr>)
     (Some (1 / 2)) False = SmartHybridStrategy
   \<and> strategy_threshold (getDiffStrategy ''gpt-4''
     (StatsArg \<lparr> size_fs = 10, path_fs = ''a.json'', language = None, lastModified = 0 \<rparr>)
     (Some (1 / 2)) False) \<noteq> Some (1 / 2)"
  by (simp add: getDiffStrategy_def hasAstSupport_def path_ext_a_json
      LARGE_FILE_THRESHOLD_def legacy_threshold_def SmartHybridStrategy_new_def)

text \<open>
  C7, amended. When the caller supplies a threshold (third argument, or the second when
  it is a number) and the selector chooses Parallel, AST-Aware, Optimized Unified or
  Search-Replace, the instance holds exactly that threshold. Smart Hybrid takes none.
\<close>

theorem getDiffStrategy_threshold_passthrough:
  assumes "legacy_threshold a b = Some t"
    and "getDiffStrategy model a b e \<noteq> SmartHybridStrategy"
  shows "strategy_threshold (getDiffStrategy model a b e) = Some t"
  using assms
  by (auto simp: getDiffStrategy_def Let_def ParallelDiffStrategy_new_def
      AstAwareStrategy_new_def OptimizedUnifiedStrategy_new_def SmartHybridStrategy_new_def
      SearchReplaceDiffStrategy_new_def split: if_splits)

theorem getDiffStrategy_threshold_passthrough_witness:
  "legacy_threshold
     (StatsArg \<lparr> size_fs = 10, path_fs = ''a.py'', language = None, lastModified = 0 \<rparr>)
     (Some (1 / 2)) = Some (1 / 2)
   \<and> getDiffStrategy ''gpt-4''
     (StatsArg \<lparr> size_fs = 10, path_fs = ''a.py'', language = None, lastModified = 0 \<rparr>)
     (Some (1 / 2)) False \<noteq> SmartHybridStrategy
   \<and> strategy_threshold (getDiffStrategy ''gpt-4''
     (StatsArg \<lparr> size_fs = 10, path_fs = ''a.py'', language = None, lastModified = 0 \<rparr>)
     (Some (1 / 2)) False) = Some (1 / 2)"
proof -
  have ext: "path_ext ''a.py'' = ''py''"
    by (simp add: path_ext_def toLowerCase_def toLowerCase_char_def)
  have h1: "legacy_threshold
     (StatsArg \<lparr> size_fs = 10, path_fs = ''a.py'', language = None, lastModified = 0 \<rparr>)
     (Some (1 / 2)) = Some (1 / 2)"
    by (simp add: legacy_threshold_def)
  have h2: "getDiffStrategy ''gpt-4''
     (StatsArg \<lparr> size_fs = 10, path_fs = ''a.py'', language = None, lastModified = 0 \<rparr>)
     (Some (1 / 2)) False \<noteq> SmartHybridStrategy"
    by (simp add: getDiffStrategy_def hasAstSupport_def ext LARGE_FILE_THRESHOLD_def
        OptimizedUnifiedStrategy_new_def)
  from getDiffStrategy_threshold_passthrough [OF h1 h2] h1 h2 show ?thesis by blast
qed

section \<open>The gap buffer and the Optimized Unified strategy\<close>

lemma concat_singletons: "concat (map (\<lambda>c. [c]) s) = s"
  by (induction s) simp_all

lemma concat_replicate_empty: "concat (replicate n []) = []"
  by (induction n) simp_all

lemma GapBuffer_new_Inr:
  assumes "int g < 2 ^ 32" and "int g + 2 \<le> host_maxArguments H"
  shows "GapBuffer_new H s g
         = Inr \<lparr> buffer = replicate g [] @ map (\<lambda>c. [c]) s, gapStart = 0, gapEnd = g \<rparr>"
  using assms
  by (simp add: GapBuffer_new_def new_Array_fill_def splice_spread_def splice_def)

lemma toString_fresh:
  "toString_gb \<lparr> buffer = replicate g [] @ map (\<lambda>c. [c]) s, gapStart = 0, gapEnd = g \<rparr> = s"
  by (simp add: toString_gb_def slice_def concat_singletons)

lemma GapBuffer_new_too_long:
  "\<not> int g < 2 ^ 32 \<Longrightarrow> GapBuffer_new H s g = Inl RangeError_array_length"
  by (simp add: GapBuffer_new_def new_Array_fill_def)

lemma GapBuffer_new_too_many:
  "int g < 2 ^ 32 \<Longrightarrow> \<not> int g + 2 \<le> host_maxArguments H \<Longrightarrow>
   GapBuffer_new H s g = Inl RangeError_call_stack"
  by (simp add: GapBuffer_new_def new_Array_fill_def splice_spread_def)

lemma parse_lines_no_header:
  "\<forall>line \<in> set lines. \<not> prefix ''@@'' line \<Longrightarrow> parse_lines lines hunks None = Inr (hunks, None)"
  by (induction lines) simp_all

lemma parseUnifiedDiff_no_header:
  "\<forall>line \<in> set (split_char CHR 0x0A diff). \<not> prefix ''@@'' line \<Longrightarrow>
   parseUnifiedDiff diff = Inr []"
  by (simp add: parseUnifiedDiff_def parse_lines_no_header)

lemma applyHunks_Nil:
  "OptimizedUnified_applyHunks H b [] options
   = Success (toString_gb b) 0
       (if (case options of None \<Rightarrow> False | Some opts \<Rightarrow> opt_collectMetrics opts)
        then Some 1 else None)"
  by (simp add: OptimizedUnified_applyHunks_def processHunksInParallel_def
      splitHunksIntoChunks_def Let_def chunks_of.simps [of _ "[]"])

lemma GAP_BUFFER_SIZE_array: "int GAP_BUFFER_SIZE < 2 ^ 32"
  by (simp add: GAP_BUFFER_SIZE_def)

text \<open>
  C8, as the claim states it, fails on the code: the constructor builds the gap with
  \<open>new Array(gapSize)\<close> and spreads it into \<open>splice\<close>. A gap size of \<open>2^32\<close> is no
  array length, and a gap of 70000 is more than a host that takes 65535 arguments can
  spread: in both cases the constructor throws, and there is no buffer to read back.
\<close>

theorem GapBuffer_gap_size_rejected:
  "GapBuffer_new \<lparr> host_hardwareConcurrency = 4, host_maxArguments = 65535 \<rparr> ''ab'' 4294967296
     = Inl RangeError_array_length
   \<and> GapBuffer_new \<lparr> host_hardwareConcurrency = 4, host_maxArguments = 65535 \<rparr> ''ab'' 70000
     = Inl RangeError_call_stack"
  by (simp add: GapBuffer_new_too_long GapBuffer_new_too_many)

text \<open>
  C8, amended. For every string \<open>s\<close> and every gap size \<open>g\<close> that is an array length
  (below \<open>2^32\<close>) and that the host can spread into a call (\<open>g + 2\<close> arguments), the
  constructor returns a buffer, and the buffer reads back as \<open>s\<close>. The strategy's own
  gap size is 1024: on a host that takes 1026 arguments, a diff none of whose lines
  starts a hunk (\<open>@@\<close>) is applied with success, the content being the original and no
  line applied.
\<close>

theorem GapBuffer_roundtrip:
  assumes "int g < 2 ^ 32" and "int g + 2 \<le> host_maxArguments H"
  shows "(\<exists>b. GapBuffer_new H s g = Inr b \<and> toString_gb b = s)
       \<and> (int GAP_BUFFER_SIZE + 2 \<le> host_maxArguments H' \<longrightarrow>
          (\<forall>line \<in> set (split_char CHR 0x0A diff). \<not> prefix ''@@'' line) \<longrightarrow>
            OptimizedUnified_applyDiff H' s diff options
            = Success s 0 (if (case options of None \<Rightarrow> False
                               | Some opts \<Rightarrow> opt_collectMetrics opts)
                           then Some 1 else None))"
proof (intro conjI impI)
  show "\<exists>b. GapBuffer_new H s g = Inr b \<and> toString_gb b = s"
    using GapBuffer_new_Inr [OF assms, of s] toString_fresh [of g s] by simp
next
  assume h: "int GAP_BUFFER_SIZE + 2 \<le> host_maxArguments H'"
    and n: "\<forall>line \<in> set (split_char CHR 0x0A diff). \<not> prefix ''@@'' line"
  show "OptimizedUnified_applyDiff H' s diff options
        = Success s 0 (if (case options of None \<Rightarrow> False
                           | Some opts \<Rightarrow> opt_collectMetrics opts)
                       then Some 1 else None)"
    by (simp add: OptimizedUnified_applyDiff_def GapBuffer_new_Inr [OF GAP_BUFFER_SIZE_array h]
        parseUnifiedDiff_no_header [OF n] applyHunks_Nil toString_fresh)
qed

theorem GapBuffer_roundtrip_witness:
  "int (3::nat) < 2 ^ 32
   \<and> int (3::nat) + 2 \<le> host_maxArguments \<lparr> host_hardwareConcurrency = 4, host_maxArguments = 65535 \<rparr>
   \<and> GapBuffer_new \<lparr> host_hardwareConcurrency = 4, host_maxArguments = 65535 \<rparr> ''ab'' 3
       = Inr \<lparr> buffer = [[], [], [], ''a'', ''b''], gapStart = 0, gapEnd = 3 \<rparr>
   \<and> toString_gb \<lparr> buffer = [[], [], [], ''a'', ''b''], gapStart = 0, gapEnd = 3 \<rparr> = ''ab''
   \<and> int GAP_BUFFER_SIZE + 2
       \<le> host_maxArguments \<lparr> host_hardwareConcurrency = 4, host_maxArguments = 65535 \<rparr>
   \<and> split_char CHR 0x0A ''no hunk'' = [''no hunk'']
   \<and> \<not> prefix ''@@'' ''no hunk''
   \<and> OptimizedUnified_applyDiff \<lparr> host_hardwareConcurrency = 4, host_maxArguments = 65535 \<rparr>
         ''ab'' ''no hunk'' None
       = Success ''ab'' 0 None"
proof -
  let ?H = "\<lparr> host_hardwareConcurrency = 4, host_maxArguments = 65535 \<rparr>"
  have a: "int (3::nat) < 2 ^ 32" by simp
  have b: "int (3::nat) + 2 \<le> host_maxArguments ?H" by simp
  have c: "int GAP_BUFFER_SIZE + 2 \<le> host_maxArguments ?H" by (simp add: GAP_BUFFER_SIZE_def)
  have d: "split_char CHR 0x0A ''no hunk'' = [''no hunk'']" by code_simp
  have e: "\<not> prefix ''@@'' ''no hunk''" by simp
  have n: "\<forall>line \<in> set (split_char CHR 0x0A ''no hunk''). \<not> prefix ''@@'' line"
    unfolding d by simp
  have f: "GapBuffer_new ?H ''ab'' 3
           = Inr \<lparr> buffer = [[], [], [], ''a'', ''b''], gapStart = 0, gapEnd = 3 \<rparr>"
    by (simp add: GapBuffer_new_Inr numeral_3_eq_3)
  have g: "toString_gb \<lparr> buffer = [[], [], [], ''a'', ''b''], gapStart = 0, gapEnd = 3 \<rparr> = ''ab''"
    using GapBuffer_roundtrip [OF a b, of "''ab''"] f by simp
  have h: "OptimizedUnified_applyDiff ?H ''ab'' ''no hunk'' None = Success ''ab'' 0 None"
    using GapBuffer_roundtrip [OF a b, of "''ab''" ?H "''no hunk''" None] c n by simp
  show ?thesis
    by (intro conjI) (fact a, fact b, fact f, fact g, fact c, fact d, fact e, fact h)
qed

text \<open>
  What \<open>verifyContext\<close> reads on a fresh buffer: positions inside the gap are moved to
  its end, so a hunk whose \<open>start\<close> and \<open>end\<close> are both below the gap size is
  compared with the one empty line of the empty slice, whatever the content.
\<close>

lemma verifyContext_in_gap:
  assumes "start_hunk h < g" and "end_hunk h < g"
  shows "verifyContext \<lparr> buffer = replicate g [] @ map (\<lambda>c. [c]) s, gapStart = 0, gapEnd = g \<rparr> h
         = every_context (context_hunk h) [[]]"
  using assms
  by (simp add: verifyContext_def slice_gb_def slice_def)

lemma processHunksSequentially_append:
  "processHunksSequentially H (xs @ ys) b =
     (case processHunksSequentially H xs b of
        Inl e \<Rightarrow> Inl e
      | Inr b' \<Rightarrow> processHunksSequentially H ys b')"
  by (induction xs arbitrary: b) (simp_all split: sum.splits bool.splits)

lemma process_chunks_concat:
  "process_chunks H cs b = processHunksSequentially H (concat cs) b"
  by (induction cs arbitrary: b)
     (simp_all add: processHunksSequentially_append split: sum.splits)

lemma concat_chunks_of: "0 < n \<or> xs = [] \<Longrightarrow> concat (chunks_of n xs) = xs"
proof (induction n xs rule: chunks_of.induct)
  case (1 n xs)
  show ?case
  proof (cases "xs = [] \<or> n = 0")
    case True
    with "1.prems" show ?thesis by (subst chunks_of.simps) auto
  next
    case False
    with "1.IH" "1.prems" have "concat (chunks_of n (drop n xs)) = drop n xs" by simp
    with False show ?thesis by (subst chunks_of.simps) simp
  qed
qed

lemma chunk_size_pos: "0 < len \<Longrightarrow> 0 < chunk_size len hc"
  by (cases "hc = 0") (simp_all add: chunk_size_def div_greater_zero_iff)

lemma processHunksInParallel_sequential:
  "processHunksInParallel H hunks b = processHunksSequentially H hunks b"
proof -
  have "0 < chunk_size (length hunks) (host_hardwareConcurrency H) \<or> hunks = []"
    using chunk_size_pos [of "length hunks" "host_hardwareConcurrency H"] by auto
  then show ?thesis
    by (simp add: processHunksInParallel_def splitHunksIntoChunks_def process_chunks_concat
        concat_chunks_of)
qed

lemma processHunksSequentially_mismatch:
  assumes "processHunksSequentially H pre b0 = Inr b" and "verifyContext b h \<noteq> Inr True"
  shows "processHunksSequentially H (pre @ h # post) b0
         = Inl (case verifyContext b h of Inl e \<Rightarrow> e | Inr ok \<Rightarrow> ContextMismatch)"
  using assms
  by (simp add: processHunksSequentially_append split: sum.splits bool.splits)

text \<open>
  What the code does right: the test that \<open>verifyContext\<close> makes stops the batch. If
  a hunk, when its turn comes (the hunks before it having passed), fails that test, be
  it a line of the slice that differs after trimming or a context line with no line
  of the slice to compare with, then the result is a failure, which carries no
  content, on the sequential and on the chunked path.
\<close>

lemma verifyContext_failure_aborts:
  assumes "processHunksSequentially H pre b0 = Inr b"
    and "verifyContext b h \<noteq> Inr True"
  shows "OptimizedUnified_applyHunks H b0 (pre @ h # post) options
         = Failure (case verifyContext b h of Inl e \<Rightarrow> e | Inr ok \<Rightarrow> ContextMismatch)"
  using processHunksSequentially_mismatch [OF assms, of post]
  by (simp add: OptimizedUnified_applyHunks_def processHunksInParallel_sequential Let_def)

text \<open>
  C2. The claim fails on the code. The slice that \<open>verifyContext\<close> compares the
  context with is not the original's lines: \<open>hunk.start\<close> and \<open>hunk.end\<close>, which are
  line numbers, are used as positions in the buffer of characters, and a position
  inside the gap (the first 1024 of a fresh buffer) is moved to the end of the gap. So
  the hunk \<open>@@ -1 +1 @@\<close> is compared with one empty line. The original is \<open>abc\<close>.
  With a blank context line, which does not match \<open>abc\<close>, the hunk passes and is
  applied: the call succeeds, and the content is changed. With the context line
  \<open>abc\<close>, which does match, the call fails with the context mismatch.
\<close>

theorem OptimizedUnified_mismatched_context_applied:
  "parseUnifiedDiff ''@@ -1 +1 @@\<newline> \<newline>+Q''
     = Inr [\<lparr> start_hunk = 1, end_hunk = 2, removed = [], added = [''Q''],
              context_hunk = [[]] \<rparr>]
   \<and> split_char CHR 0x0A ''abc'' = [''abc'']
   \<and> trim ''abc'' \<noteq> trim []
   \<and> OptimizedUnified_applyDiff \<lparr> host_hardwareConcurrency = 4, host_maxArguments = 65535 \<rparr>
        ''abc'' ''@@ -1 +1 @@\<newline> \<newline>+Q'' None
     = Success ''aQc'' 1 None
   \<and> OptimizedUnified_applyDiff \<lparr> host_hardwareConcurrency = 4, host_maxArguments = 65535 \<rparr>
        ''abc'' ''@@ -1 +1 @@\<newline> abc\<newline>+Q'' None
     = Failure ContextMismatch"
  by code_simp

section \<open>The Levenshtein distance\<close>

declare distance.simps(3) [simp del]

lemma distance_Nil_right: "distance xs [] = length xs"
  by (cases xs) simp_all

lemma distance_Cons_right_le: "distance xs (y # ys) \<le> Suc (distance xs ys)"
  by (cases xs) (simp_all add: distance.simps(3))

lemma distance_Cons_left_le: "distance (x # xs) ys \<le> Suc (distance xs ys)"
  by (cases ys) (simp_all add: distance_Nil_right distance.simps(3))

lemma length_le_distance:
  "length ys \<le> length xs + distance xs ys \<and> length xs \<le> length ys + distance xs ys"
  by (induction xs ys rule: distance.induct) (auto simp: min_def distance.simps(3))

lemma distance_drop_le:
  "(\<forall>y'. distance xs ys \<le> Suc (distance xs (y' # ys)))
   \<and> (\<forall>x'. distance xs ys \<le> Suc (distance (x' # xs) ys))"
proof (induction xs ys rule: distance.induct)
  case (1 ys)
  have "length ys \<le> Suc (distance [x'] ys)" for x'
    using length_le_distance [of ys "[x']"] by simp
  then show ?case by simp
next
  case (2 x xs)
  have "length xs \<le> distance (x # xs) [y']" for y'
    using length_le_distance [of "[y']" "x # xs"] by simp
  then show ?case by simp
next
  case (3 x xs y ys)
  have a1: "distance (x # xs) (y # ys) \<le> Suc (distance (x # xs) (y' # y # ys))" for y'
  proof -
    have e: "distance (x # xs) (y' # y # ys) =
               min (Suc (distance xs (y' # y # ys)))
                   (min (Suc (distance (x # xs) (y # ys)))
                        (distance xs (y # ys) + (if x = y' then 0 else 1)))"
      by (rule distance.simps(3))
    have "distance (x # xs) (y # ys) \<le> Suc (distance xs (y # ys))"
      by (rule distance_Cons_left_le)
    moreover have "distance xs (y # ys) \<le> Suc (distance xs (y' # y # ys))"
      using "3.IH"(1) by blast
    ultimately show ?thesis
      unfolding e by (simp add: min_def)
  qed
  have a2: "distance (x # xs) (y # ys) \<le> Suc (distance (x' # x # xs) (y # ys))" for x'
  proof -
    have e: "distance (x' # x # xs) (y # ys) =
               min (Suc (distance (x # xs) (y # ys)))
                   (min (Suc (distance (x' # x # xs) ys))
                        (distance (x # xs) ys + (if x' = y then 0 else 1)))"
      by (rule distance.simps(3))
    have "distance (x # xs) (y # ys) \<le> Suc (distance (x # xs) ys)"
      by (rule distance_Cons_right_le)
    moreover have "distance (x # xs) ys \<le> Suc (distance (x' # x # xs) ys)"
      using "3.IH"(2) by blast
    ultimately show ?thesis
      unfolding e by (simp add: min_def)
  qed
  from a1 a2 show ?case by blast
qed

text \<open>Equal heads cost nothing: the equation the distance is evaluated with.\<close>

lemma distance_code [code]:
  "distance [] ys = length ys"
  "distance (x # xs) [] = Suc (length xs)"
  "distance (x # xs) (y # ys) =
     (if x = y then distance xs ys
      else Suc (min (distance xs (y # ys)) (min (distance (x # xs) ys) (distance xs ys))))"
proof -
  show "distance [] ys = length ys" by simp
  show "distance (x # xs) [] = Suc (length xs)" by simp
  have "distance xs ys \<le> Suc (distance xs (x # ys))"
    and "distance xs ys \<le> Suc (distance (x # xs) ys)"
    using distance_drop_le [of xs ys] by blast+
  then have "distance (x # xs) (x # ys) = distance xs ys"
    by (simp add: distance.simps(3) min_def)
  moreover have "x \<noteq> y \<Longrightarrow> distance (x # xs) (y # ys) =
     Suc (min (distance xs (y # ys)) (min (distance (x # xs) ys) (distance xs ys)))"
    by (simp add: distance.simps(3) min_def)
  ultimately show "distance (x # xs) (y # ys) =
     (if x = y then distance xs ys
      else Suc (min (distance xs (y # ys)) (min (distance (x # xs) ys) (distance xs ys))))"
    by (cases "x = y") auto
qed

lemma distance_zero: "distance xs ys = 0 \<Longrightarrow> xs = ys"
  by (induction xs ys rule: distance.induct)
     (auto simp: min_def distance.simps(3) split: if_splits)

section \<open>Smart Hybrid: the warm cache\<close>

lemma warm_inv_new: "warm_inv SmartHybrid_new"
  by (simp add: warm_inv_def SmartHybrid_new_def)

lemma warm_inv_recompute:
  assumes "\<forall>k \<in> fst ` set (warmCache st1). k < contentKey" and "next_obj st1 = Suc contentKey"
  shows "warm_inv (snd (sh_recompute st1 now contentKey hash cacheKey metrics orig srch rep))"
  using assms by (auto simp: sh_recompute_def warm_inv_def Let_def)

lemma warm_inv_applyDiff:
  assumes "warm_inv st"
  shows "warm_inv (snd (SmartHybrid_applyDiff E st now original diff options))"
proof (cases "parseDiffContent diff")
  case None
  with assms show ?thesis by (simp add: SmartHybrid_applyDiff_def)
next
  case (Some sr)
  obtain srch rep where sr: "sr = (srch, rep)" by (cases sr)
  define key where "key = getCacheKey E (generateHybridHash E (sh_content E original)
                            (sh_fileStats options)) diff"
  obtain hit hot1 where hg: "hot_get (hotCache st) now key = (hit, hot1)"
    by (cases "hot_get (hotCache st) now key")
  let ?st1 = "st\<lparr> hotCache := hot1, next_obj := Suc (next_obj st) \<rparr>"
  have a: "\<forall>k \<in> fst ` set (warmCache ?st1). k < next_obj st"
    using assms by (simp add: warm_inv_def)
  have b: "next_obj ?st1 = Suc (next_obj st)" by simp
  have w1: "warm_inv ?st1" using assms by (auto simp: warm_inv_def)
  have w0: "warm_inv (st\<lparr> hotCache := hot1 \<rparr>)" using assms by (simp add: warm_inv_def)
  show ?thesis
    using Some sr hg w0 w1 warm_inv_recompute [OF a b]
    by (simp add: SmartHybrid_applyDiff_def Let_def key_def split: option.splits)
qed

lemma warm_inv_run: "warm_inv (sh_run E calls)"
proof -
  have "warm_inv st \<Longrightarrow> warm_inv (foldl (sh_step E) st calls)" for st
    by (induction calls arbitrary: st) (simp_all add: sh_step_def warm_inv_applyDiff)
  then show ?thesis by (simp add: sh_run_def warm_inv_new)
qed

lemma warm_lookup_None: "warm_inv st \<Longrightarrow> warm_lookup st = None"
  by (force simp: warm_inv_def warm_lookup_def map_of_eq_None_iff)

lemma applyDiff_hot_miss:
  assumes "warm_inv st"
    and "parseDiffContent diff = Some (srch, rep)"
    and "fst (hot_get (hotCache st) now (sh_cacheKey E original diff options)) = None"
  shows "SmartHybrid_applyDiff E st now original diff options
         = sh_recompute
             (st\<lparr> hotCache := snd (hot_get (hotCache st) now (sh_cacheKey E original diff options)),
                  next_obj := Suc (next_obj st) \<rparr>)
             now (next_obj st)
             (generateHybridHash E (sh_content E original) (sh_fileStats options))
             (sh_cacheKey E original diff options)
             (case options of None \<Rightarrow> False | Some opts \<Rightarrow> opt_collectMetrics opts)
             (sh_content E original) srch rep"
proof -
  define key where "key = sh_cacheKey E original diff options"
  obtain hit hot1 where hg: "hot_get (hotCache st) now key = (hit, hot1)"
    by (cases "hot_get (hotCache st) now key")
  have hit: "hit = None" using assms(3) hg by (simp add: key_def)
  have k: "getCacheKey E (generateHybridHash E (sh_content E original)
             (sh_fileStats options)) diff = key"
    by (simp add: key_def sh_cacheKey_def)
  show ?thesis
    unfolding SmartHybrid_applyDiff_def Let_def k key_def [symmetric]
    using assms(2) hg hit warm_lookup_None [OF assms(1)]
    by simp
qed

text \<open>
  C10. In every state a strategy instance reaches through calls of \<open>applyDiff\<close>, the
  warm-cache lookup of the next call, made with the object that call allocates, finds
  nothing; so a call that parses its diff and misses the hot cache goes on to the
  replacement itself.
\<close>

theorem SmartHybrid_warm_cache_never_hits:
  "warm_lookup (sh_run E calls) = None
   \<and> (parseDiffContent diff = Some (srch, rep) \<longrightarrow>
      fst (hot_get (hotCache (sh_run E calls)) now (sh_cacheKey E original diff options)) = None
      \<longrightarrow>
      SmartHybrid_applyDiff E (sh_run E calls) now original diff options
      = sh_recompute
          ((sh_run E calls)\<lparr> hotCache := snd (hot_get (hotCache (sh_run E calls)) now
                                                (sh_cacheKey E original diff options)),
                              next_obj := Suc (next_obj (sh_run E calls)) \<rparr>)
          now (next_obj (sh_run E calls))
          (generateHybridHash E (sh_content E original) (sh_fileStats options))
          (sh_cacheKey E original diff options)
          (case options of None \<Rightarrow> False | Some opts \<Rightarrow> opt_collectMetrics opts)
          (sh_content E original) srch rep)"
  using warm_lookup_None [OF warm_inv_run] applyDiff_hot_miss [OF warm_inv_run]
  by blast

theorem SmartHybrid_warm_cache_never_hits_witness:
  "warm_lookup (sh_run plain_env
      [\<lparr> call_now = 0, call_original = ''const x = 1;'',
          call_diff = ''<<<<<<< SEARCH\<newline>const x = 1;\<newline>=======\<newline>const x = 2;\<newline>>>>>>>> REPLACE'',
          call_options = None \<rparr>]) = None
   \<and> map fst (warmCache (sh_run plain_env
      [\<lparr> call_now = 0, call_original = ''const x = 1;'',
          call_diff = ''<<<<<<< SEARCH\<newline>const x = 1;\<newline>=======\<newline>const x = 2;\<newline>>>>>>>> REPLACE'',
          call_options = None \<rparr>])) = [0]
   \<and> parseDiffContent ''<<<<<<< SEARCH\<newline>const x = 1;\<newline>=======\<newline>const x = 3;\<newline>>>>>>>> REPLACE''
       = Some (''const x = 1;'', ''const x = 3;'')
   \<and> fst (hot_get (hotCache (sh_run plain_env
      [\<lparr> call_now = 0, call_original = ''const x = 1;'',
          call_diff = ''<<<<<<< SEARCH\<newline>const x = 1;\<newline>=======\<newline>const x = 2;\<newline>>>>>>>> REPLACE'',
          call_options = None \<rparr>])) 1
        (sh_cacheKey plain_env ''const x = 1;''
           ''<<<<<<< SEARCH\<newline>const x = 1;\<newline>=======\<newline>const x = 3;\<newline>>>>>>>> REPLACE'' None))
       = None
   \<and> fst (SmartHybrid_applyDiff plain_env (sh_run plain_env
      [\<lparr> call_now = 0, call_original = ''const x = 1;'',
          call_diff = ''<<<<<<< SEARCH\<newline>const x = 1;\<newline>=======\<newline>const x = 2;\<newline>>>>>>>> REPLACE'',
          call_options = None \<rparr>]) 1 ''const x = 1;''
        ''<<<<<<< SEARCH\<newline>const x = 1;\<newline>=======\<newline>const x = 3;\<newline>>>>>>>> REPLACE'' None)
       = Success ''const x = 3;'' 1 None"
proof -
  let ?d = "''<<<<<<< SEARCH\<newline>const x = 1;\<newline>=======\<newline>const x = 2;\<newline>>>>>>>> REPLACE''"
  let ?d' = "''<<<<<<< SEARCH\<newline>const x = 1;\<newline>=======\<newline>const x = 3;\<newline>>>>>>>> REPLACE''"
  let ?calls = "[\<lparr> call_now = 0, call_original = ''const x = 1;'', call_diff = ?d,
                    call_options = None \<rparr>]"
  let ?st = "sh_run plain_env ?calls"
  have w: "map fst (warmCache ?st) = [0]"
    by code_simp
  have p: "parseDiffContent ?d' = Some (''const x = 1;'', ''const x = 3;'')"
    by code_simp
  have h: "fst (hot_get (hotCache ?st) 1 (sh_cacheKey plain_env ''const x = 1;'' ?d' None))
           = None"
    by code_simp
  have l: "warm_lookup ?st = None"
    by (rule SmartHybrid_warm_cache_never_hits [THEN conjunct1])
  note eq = SmartHybrid_warm_cache_never_hits [THEN conjunct2, rule_format, OF p h]
  have r: "fst (SmartHybrid_applyDiff plain_env ?st 1 ''const x = 1;'' ?d' None)
           = Success ''const x = 3;'' 1 None"
    unfolding eq by code_simp
  show ?thesis
    by (intro conjI) (fact l, fact w, fact p, fact h, fact r)
qed

section \<open>Rounding to double precision\<close>

lemma round_even_le: "x \<le> of_int n \<Longrightarrow> round_even x \<le> n"
  unfolding round_even_def Let_def
  by (auto simp: floor_le_iff le_floor_iff)

lemma round_even_ge: "of_int n \<le> x \<Longrightarrow> n \<le> round_even x"
proof -
  assume "of_int n \<le> x"
  then have "n \<le> \<lfloor>x\<rfloor>" by (simp add: le_floor_iff)
  then show ?thesis unfolding round_even_def Let_def by auto
qed

lemma round_even_below_half: "x < of_int n + 1 / 2 \<Longrightarrow> round_even x \<le> n"
proof -
  assume a: "x < of_int n + 1 / 2"
  have f: "of_int \<lfloor>x\<rfloor> \<le> x" by simp
  have "\<lfloor>x\<rfloor> \<le> n"
  proof -
    have "x < of_int (n + 1)" using a by simp
    then have "\<lfloor>x\<rfloor> < n + 1" by (simp only: floor_less_iff)
    then show ?thesis by simp
  qed
  moreover have "1 / 2 \<le> x - of_int \<lfloor>x\<rfloor> \<Longrightarrow> \<lfloor>x\<rfloor> \<noteq> n"
  proof
    assume h: "1 / 2 \<le> x - of_int \<lfloor>x\<rfloor>" and e: "\<lfloor>x\<rfloor> = n"
    from h e a show False by simp
  qed
  ultimately show ?thesis unfolding round_even_def Let_def by auto
qed

lemma round_even_of_int [simp]: "round_even (of_int n) = n"
  by (simp add: round_even_def)

lemma bitlen_rat_bounds:
  fixes p :: int
  assumes "0 < p"
  shows "(2::rat) powi (bitlen p - 1) \<le> of_int p" and "of_int p < (2::rat) powi (bitlen p)"
proof -
  from bitlen_bounds [OF assms] have a: "2 ^ nat (bitlen p - 1) \<le> p" and b: "p < 2 ^ nat (bitlen p)"
    by auto
  have ge1: "1 \<le> bitlen p" using assms bitlen_eq_zero_iff [of p] bitlen_nonneg [of p] by linarith
  have "(2::rat) powi (bitlen p - 1) = 2 ^ nat (bitlen p - 1)"
    using ge1 by (simp add: power_int_def)
  also have "\<dots> = of_int (2 ^ nat (bitlen p - 1))" by simp
  also have "\<dots> \<le> of_int p" using a by (simp only: of_int_le_iff)
  finally show "(2::rat) powi (bitlen p - 1) \<le> of_int p" .
  have "of_int p < (of_int (2 ^ nat (bitlen p)) :: rat)" using b by (simp only: of_int_less_iff)
  also have "\<dots> = 2 powi (bitlen p)" using ge1 by (simp add: power_int_def)
  finally show "of_int p < (2::rat) powi (bitlen p)" .
qed

lemma pow2_add: "(2::rat) powi (a + b) = 2 powi a * 2 powi b"
  by (simp add: power_int_add)

lemma pow2_diff: "(2::rat) powi (a - b) = 2 powi a / 2 powi b"
  by (simp add: power_int_diff)

lemma pow2_pos [simp]: "0 < (2::rat) powi a"
  by simp

lemma pow2_less_iff: "(2::rat) powi a < 2 powi b \<longleftrightarrow> a < b"
  by (metis linorder_not_less numeral_One numeral_less_iff order_less_le power_int_increasing power_int_strict_increasing semiring_norm(76) one_le_numeral)

lemma pow2_le_iff: "(2::rat) powi a \<le> 2 powi b \<longleftrightarrow> a \<le> b"
  using pow2_less_iff [of b a] by (auto simp: not_less [symmetric])

lemma exponent2_bounds:
  assumes "0 < x"
  shows "2 powi (exponent2 x) \<le> x" and "x < 2 powi (exponent2 x + 1)"
proof -
  obtain p q where pq: "quotient_of x = (p, q)" by (cases "quotient_of x")
  then have q: "0 < q" and x: "x = of_int p / of_int q"
    using quotient_of_denom_pos [OF pq] quotient_of_div [OF pq] by auto
  have p: "0 < p" using assms q x by (simp add: zero_less_divide_iff)
  let ?e0 = "bitlen p - bitlen q"
  have qpos: "0 < (of_int q :: rat)" using q by simp
  have up: "x < 2 powi (?e0 + 1)"
  proof -
    have "x * of_int q = of_int p" using x qpos by simp
    also have "\<dots> < 2 powi (bitlen p)" by (rule bitlen_rat_bounds(2) [OF p])
    also have "\<dots> = 2 powi (?e0 + 1) * 2 powi (bitlen q - 1)"
      by (simp add: pow2_add [symmetric])
    also have "\<dots> \<le> 2 powi (?e0 + 1) * of_int q"
      using bitlen_rat_bounds(1) [OF q] by (simp add: mult_left_mono)
    finally show ?thesis using qpos by simp
  qed
  have lo: "2 powi (?e0 - 1) \<le> x"
  proof -
    have "(2::rat) powi (?e0 - 1) * of_int q \<le> 2 powi (?e0 - 1) * 2 powi (bitlen q)"
      using bitlen_rat_bounds(2) [OF q] by (simp add: mult_left_mono)
    also have "\<dots> = 2 powi (bitlen p - 1)" by (simp add: pow2_add [symmetric])
    also have "\<dots> \<le> of_int p" by (rule bitlen_rat_bounds(1) [OF p])
    also have "\<dots> = x * of_int q" using x qpos by simp
    finally show ?thesis using qpos by simp
  qed
  have e: "exponent2 x = (if 2 powi ?e0 \<le> x then ?e0 else ?e0 - 1)"
    by (simp add: exponent2_def pq Let_def)
  show "2 powi (exponent2 x) \<le> x" using lo by (simp add: e)
  show "x < 2 powi (exponent2 x + 1)" using up by (auto simp add: e not_le)
qed

lemma exponent2_unique:
  assumes "2 powi k \<le> x" and "x < 2 powi (k + 1)"
  shows "exponent2 x = k"
proof -
  have x: "0 < x" using assms(1) pow2_pos [of k] by linarith
  note b = exponent2_bounds [OF x]
  have "2 powi k < (2::rat) powi (exponent2 x + 1)" using assms(1) b(2) by linarith
  then have 1: "k < exponent2 x + 1" by (simp only: pow2_less_iff)
  have "2 powi (exponent2 x) < (2::rat) powi (k + 1)" using assms(2) b(1) by linarith
  then have 2: "exponent2 x < k + 1" by (simp only: pow2_less_iff)
  from 1 2 show ?thesis by simp
qed

lemma pow2_nat_mult: "(2::rat) ^ n * 2 powi k = 2 powi (int n + k)"
  by (simp add: power_int_add)

lemma pow2_52: "(2::rat) ^ 52 * 2 powi (e - 52) = 2 powi e"
  using pow2_nat_mult [of 52 "e - 52"] by simp

lemma pow2_53: "(2::rat) ^ 53 * 2 powi (e - 52) = 2 powi (e + 1)"
  using pow2_nat_mult [of 53 "e - 52"] by (simp add: add.commute)

lemma fl_pos:
  "0 < x \<Longrightarrow>
   fl x = of_int (round_even (x / 2 powi (exponent2 x - 52))) * 2 powi (exponent2 x - 52)"
  by (simp add: fl_def Let_def)

lemma scaled_bounds:
  assumes "0 < x"
  shows "2 ^ 52 \<le> x / 2 powi (exponent2 x - 52)" and "x / 2 powi (exponent2 x - 52) < 2 ^ 53"
proof -
  let ?e = "exponent2 x"
  note a = pow2_52 [of ?e] and b = pow2_53 [of ?e]
  show "2 ^ 52 \<le> x / 2 powi (?e - 52)"
    using exponent2_bounds(1) [OF assms] a by (simp add: pos_le_divide_eq)
  show "x / 2 powi (?e - 52) < 2 ^ 53"
    using exponent2_bounds(2) [OF assms] b by (simp add: pos_divide_less_eq)
qed

lemma round_scaled_bounds:
  assumes "0 < x"
  shows "2 ^ 52 \<le> round_even (x / 2 powi (exponent2 x - 52))"
    and "round_even (x / 2 powi (exponent2 x - 52)) \<le> 2 ^ 53"
proof -
  have "of_int (2 ^ 52) \<le> x / 2 powi (exponent2 x - 52)"
    using scaled_bounds(1) [OF assms] by simp
  then show "2 ^ 52 \<le> round_even (x / 2 powi (exponent2 x - 52))" by (rule round_even_ge)
  have "x / 2 powi (exponent2 x - 52) \<le> of_int (2 ^ 53)"
    using scaled_bounds(2) [OF assms] by simp
  then show "round_even (x / 2 powi (exponent2 x - 52)) \<le> 2 ^ 53" by (rule round_even_le)
qed

lemma fl_le_grid:
  assumes "0 < x" and "x \<le> of_int n * 2 powi (exponent2 x - 52)"
  shows "fl x \<le> of_int n * 2 powi (exponent2 x - 52)"
proof -
  have "x / 2 powi (exponent2 x - 52) \<le> of_int n"
    using assms(2) by (simp add: pos_divide_le_eq)
  then have "round_even (x / 2 powi (exponent2 x - 52)) \<le> n" by (rule round_even_le)
  then have "(of_int (round_even (x / 2 powi (exponent2 x - 52))) :: rat) \<le> of_int n"
    by (simp only: of_int_le_iff)
  then show ?thesis by (simp add: fl_pos [OF assms(1)])
qed

lemma fl_ge_exponent:
  assumes "0 < x"
  shows "2 powi (exponent2 x) \<le> fl x"
proof -
  have "(2::rat) powi (exponent2 x) = of_int (2 ^ 52) * 2 powi (exponent2 x - 52)"
    using pow2_52 [of "exponent2 x"] by simp
  also have "\<dots> \<le> of_int (round_even (x / 2 powi (exponent2 x - 52))) * 2 powi (exponent2 x - 52)"
    using round_scaled_bounds(1) [OF assms] by (simp only: mult_le_cancel_right_pos pow2_pos of_int_le_iff)
  finally show ?thesis by (simp add: fl_pos [OF assms])
qed

lemma fl_le_exponent:
  assumes "0 < x"
  shows "fl x \<le> 2 powi (exponent2 x + 1)"
proof -
  have "of_int (round_even (x / 2 powi (exponent2 x - 52))) * 2 powi (exponent2 x - 52)
        \<le> (of_int (2 ^ 53) :: rat) * 2 powi (exponent2 x - 52)"
    using round_scaled_bounds(2) [OF assms] by (simp only: mult_le_cancel_right_pos pow2_pos of_int_le_iff)
  also have "\<dots> = 2 powi (exponent2 x + 1)" using pow2_53 [of "exponent2 x"] by simp
  finally show ?thesis by (simp add: fl_pos [OF assms])
qed

lemma fl_pow2 [simp]: "fl (2 powi k) = 2 powi k"
proof -
  have e: "exponent2 (2 powi k) = k"
    by (rule exponent2_unique) (simp_all add: pow2_less_iff)
  have "(2::rat) powi k / 2 powi (k - 52) = 2 ^ 52"
    using pow2_52 [of k] by (simp add: field_simps)
  then have s: "(2::rat) powi k / 2 powi (k - 52) = of_int (2 ^ 52)" by simp
  have "fl (2 powi k) = of_int (2 ^ 52) * 2 powi (k - 52)"
    by (simp only: fl_pos [OF pow2_pos] e s round_even_of_int)
  also have "\<dots> = 2 powi k" using pow2_52 [of k] by simp
  finally show ?thesis .
qed

lemma fl_ge_pow2:
  assumes "2 powi k \<le> x"
  shows "2 powi k \<le> fl x"
proof -
  have x: "0 < x" using assms pow2_pos [of k] by linarith
  have "(2::rat) powi k < 2 powi (exponent2 x + 1)"
    using assms exponent2_bounds(2) [OF x] by linarith
  then have "k \<le> exponent2 x" by (simp add: pow2_less_iff)
  then have "(2::rat) powi k \<le> 2 powi (exponent2 x)" by (simp add: pow2_le_iff)
  with fl_ge_exponent [OF x] show ?thesis by linarith
qed

lemma fl_le_pow2:
  assumes "0 < x" and "x \<le> 2 powi k"
  shows "fl x \<le> 2 powi k"
proof (cases "x = 2 powi k")
  case True
  then show ?thesis by simp
next
  case False
  with assms(2) have "x < 2 powi k" by simp
  with exponent2_bounds(1) [OF assms(1)] have "(2::rat) powi (exponent2 x) < 2 powi k" by linarith
  then have "exponent2 x + 1 \<le> k" by (simp add: pow2_less_iff)
  then have "(2::rat) powi (exponent2 x + 1) \<le> 2 powi k" by (simp only: pow2_le_iff)
  with fl_le_exponent [OF assms(1)] show ?thesis by linarith
qed

lemma fl_nonneg: "0 \<le> x \<Longrightarrow> 0 \<le> fl x"
proof (cases "x = 0")
  case True
  then show ?thesis by (simp add: fl_def)
next
  case False
  assume "0 \<le> x"
  with False have x: "0 < x" by simp
  have "0 < (2::rat) powi (exponent2 x)" by simp
  with fl_ge_exponent [OF x] show ?thesis by linarith
qed

lemma fl_nonpos: "x \<le> 0 \<Longrightarrow> fl x \<le> 0"
proof (cases "x = 0")
  case True
  then show ?thesis by (simp add: fl_def)
next
  case False
  assume "x \<le> 0"
  with False have x: "x < 0" by simp
  let ?u = "(2::rat) powi (exponent2 \<bar>x\<bar> - 52)"
  have "x / ?u \<le> of_int 0" using x by (simp add: divide_le_0_iff)
  then have "round_even (x / ?u) \<le> 0" by (rule round_even_le)
  then have "(of_int (round_even (x / ?u)) :: rat) \<le> 0" by simp
  then have "of_int (round_even (x / ?u)) * ?u \<le> 0" 
    by (simp add: mult_le_0_iff)
  with False show ?thesis by (simp add: fl_def Let_def)
qed

lemma fl_idem:
  assumes "0 \<le> x"
  shows "fl (fl x) = fl x"
proof (cases "x = 0")
  case True
  then show ?thesis by (simp add: fl_def)
next
  case False
  with assms have x: "0 < x" by simp
  let ?e = "exponent2 x"
  let ?u = "(2::rat) powi (?e - 52)"
  let ?n = "round_even (x / ?u)"
  have y: "fl x = of_int ?n * ?u" by (rule fl_pos [OF x])
  note nb = round_scaled_bounds [OF x]
  show ?thesis
  proof (cases "?n = 2 ^ 53")
    case True
    have "fl x = of_int (2 ^ 53) * ?u" by (simp only: y True)
    also have "\<dots> = 2 powi (?e + 1)" using pow2_53 [of ?e] by simp
    finally show ?thesis by simp
  next
    case False
    with nb(2) have lt: "?n < 2 ^ 53" by simp
    have lo: "2 powi ?e \<le> fl x" by (rule fl_ge_exponent [OF x])
    have "of_int ?n * ?u < (of_int (2 ^ 53) :: rat) * ?u"
      using lt by (simp only: mult_less_cancel_right_pos pow2_pos of_int_less_iff)
    also have "\<dots> = 2 powi (?e + 1)" using pow2_53 [of ?e] by simp
    finally have hi: "fl x < 2 powi (?e + 1)" by (simp only: y)
    have e: "exponent2 (fl x) = ?e" by (rule exponent2_unique [OF lo hi])
    have pos: "0 < fl x" using lo pow2_pos [of ?e] by linarith
    have "fl (fl x) = of_int (round_even (fl x / ?u)) * ?u"
      by (simp only: fl_pos [OF pos] e)
    also have "fl x / ?u = of_int ?n" by (simp add: y)
    finally show ?thesis by (simp only: round_even_of_int y)
  qed
qed

lemma fl_below_one:
  assumes "0 \<le> x" and "x \<le> below_one"
  shows "fl x \<le> below_one"
proof (cases "x = 0")
  case True
  then show ?thesis by (simp add: fl_def below_one_def)
next
  case False
  with assms have x: "0 < x" by simp
  let ?e = "exponent2 x"
  have "2 powi ?e < (2::rat) powi 0"
    using exponent2_bounds(1) [OF x] assms(2) by (simp add: below_one_def)
  then have e: "?e \<le> - 1" by (simp only: pow2_less_iff)
  let ?N = "(2::int) ^ nat (52 - ?e) - 2 ^ nat (- 1 - ?e)"
  have "of_int ?N * (2::rat) powi (?e - 52)
        = (2 powi (52 - ?e) - 2 powi (- 1 - ?e)) * 2 powi (?e - 52)"
    using e by (simp add: power_int_def)
  also have "\<dots> = 2 powi (52 - ?e) * 2 powi (?e - 52) - 2 powi (- 1 - ?e) * 2 powi (?e - 52)"
    by (simp add: algebra_simps)
  also have "\<dots> = 2 powi 0 - 2 powi (- 53)"
    by (simp only: pow2_add [symmetric]) simp
  also have "\<dots> = below_one" by (simp add: below_one_def power_int_def power_one_over)
  finally have g: "of_int ?N * (2::rat) powi (?e - 52) = below_one" .
  from fl_le_grid [OF x, of ?N] assms(2) g show ?thesis by simp
qed

lemma double_below_one:
  assumes "is_double v" and "v < 1"
  shows "v \<le> below_one"
proof (cases "0 < v")
  case False
  then show ?thesis by (simp add: below_one_def) 
next
  case True
  let ?e = "exponent2 v"
  let ?u = "(2::rat) powi (?e - 52)"
  let ?n = "round_even (v / ?u)"
  have v: "v = of_int ?n * ?u" using assms(1) fl_pos [OF True] by (simp add: is_double_def)
  have "2 powi ?e < (2::rat) powi 0"
    using exponent2_bounds(1) [OF True] assms(2) by simp
  then have e: "?e \<le> - 1" by (simp only: pow2_less_iff)
  show ?thesis
  proof (cases "?e = - 1")
    case True
    then have u: "?u = 1 / 2 ^ 53" by (simp add: power_int_def power_one_over)
    have "of_int ?n * ?u < 1" using v assms(2) by simp
    then have "(of_int ?n :: rat) < of_int (2 ^ 53)" by (simp add: u)
    then have "?n < 2 ^ 53" by (simp only: of_int_less_iff)
    then have "?n \<le> 2 ^ 53 - 1" by simp
    then have "(of_int ?n :: rat) \<le> of_int (2 ^ 53 - 1)" by (simp only: of_int_le_iff)
    then have "of_int ?n * ?u \<le> below_one" by (simp add: u below_one_def field_simps)
    with v show ?thesis by simp
  next
    case False
    with e have "?e + 1 \<le> - 1" by simp
    then have "(2::rat) powi (?e + 1) \<le> 2 powi (- 1)" by (simp only: pow2_le_iff)
    also have "\<dots> \<le> below_one" by (simp add: below_one_def power_int_def)
    finally show ?thesis using exponent2_bounds(2) [OF \<open>0 < v\<close>] by linarith
  qed
qed

lemma percent_below_100:
  assumes "x \<le> below_one"
  shows "\<lfloor>fl (x * 100)\<rfloor> < 100"
proof -
  consider "x * 100 \<le> 0" | "0 < x * 100" "x * 100 \<le> 64" | "64 < x * 100" by linarith
  then have "fl (x * 100) < 100"
  proof cases
    case 1
    with fl_nonpos [of "x * 100"] show ?thesis by linarith
  next
    case 2
    have "x * 100 \<le> 2 powi 6" using 2(2) by simp
    from fl_le_pow2 [OF 2(1) this] show ?thesis by simp
  next
    case 3
    have hi: "x * 100 < 2 powi (6 + 1)" using assms by (simp add: below_one_def)
    have lo: "2 powi 6 \<le> x * 100" using 3 by simp
    have e: "exponent2 (x * 100) = 6" by (rule exponent2_unique [OF lo hi])
    have pos: "0 < x * 100" using 3 by simp
    let ?N = "100 * 2 ^ 46 - 1 :: int"
    have "x * 100 / 2 powi (6 - 52) < of_int ?N + 1 / 2"
      using assms by (simp add: below_one_def power_int_def power_one_over)
    then have "round_even (x * 100 / 2 powi (6 - 52)) \<le> ?N" by (rule round_even_below_half)
    then have "(of_int (round_even (x * 100 / 2 powi (6 - 52))) :: rat) \<le> of_int ?N"
      by (simp only: of_int_le_iff)
    then have "of_int (round_even (x * 100 / 2 powi (6 - 52))) * (2::rat) powi (6 - 52)
               \<le> of_int ?N * 2 powi (6 - 52)"
      by (simp only: mult_le_cancel_right_pos pow2_pos)
    also have "\<dots> < 100" by (simp add: power_int_def power_one_over)
    finally show ?thesis by (simp only: fl_pos [OF pos] e)
  qed
  then show ?thesis by (simp add: floor_less_iff)
qed

lemma js_similarity_bounds:
  assumes "1 \<le> d" and "d \<le> m"
  shows "js_similarity d m \<le> below_one" and "is_double (js_similarity d m)" 
    and "0 \<le> js_similarity d m"
proof -
  show "js_similarity d m \<le> below_one"
  proof (cases "int m < 2 ^ 53")
    case False
    then show ?thesis by (simp add: js_similarity_def below_one_def)
  next
    case True
    let ?q = "of_nat d / of_nat m :: rat"
    have m: "0 < (of_nat m :: rat)" using assms by simp
    have "(of_nat m :: rat) = of_int (int m)" by simp
    also have "\<dots> < of_int (2 ^ 53)" using True by (simp only: of_int_less_iff)
    finally have mlt: "(of_nat m :: rat) < 2 ^ 53" by simp
    have "(1::rat) \<le> of_nat d" using assms(1) by simp
    then have "1 / of_nat m \<le> ?q" using m by (simp add: divide_right_mono)
    moreover have "1 / 2 ^ 53 \<le> 1 / (of_nat m :: rat)"
      using m mlt by (intro divide_left_mono) simp_all
    moreover have "(2::rat) powi (- 53) = 1 / 2 ^ 53" by (simp add: power_int_def power_one_over)
    ultimately have "2 powi (- 53) \<le> ?q" by linarith
    then have lo: "2 powi (- 53) \<le> fl ?q" by (rule fl_ge_pow2)
    have qpos: "0 < ?q" using assms m by simp
    have "?q \<le> 2 powi 0" using assms m by simp
    from fl_le_pow2 [OF qpos this] have hi: "fl ?q \<le> 1" by simp
    have "fl (1 - fl ?q) \<le> below_one"
      using lo hi by (intro fl_below_one) (simp_all add: below_one_def power_int_def power_one_over)
    with True show ?thesis by (simp add: js_similarity_def)
  qed
  show "is_double (js_similarity d m)"
  proof (cases "int m < 2 ^ 53")
    case False
    then show ?thesis by (simp add: js_similarity_def is_double_def fl_def)
  next
    case True
    let ?q = "of_nat d / of_nat m :: rat"
    have m: "0 < (of_nat m :: rat)" using assms by simp
    have qpos: "0 < ?q" using assms m by simp
    have "?q \<le> 2 powi 0" using assms m by simp
    from fl_le_pow2 [OF qpos this] have hi: "fl ?q \<le> 1" by simp
    then have "fl (fl (1 - fl ?q)) = fl (1 - fl ?q)" by (intro fl_idem) simp
    with True show ?thesis by (simp add: js_similarity_def is_double_def)
  qed
  show "0 \<le> js_similarity d m"
  proof (cases "int m < 2 ^ 53")
    case False
    then show ?thesis by (simp add: js_similarity_def)
  next
    case True
    let ?q = "of_nat d / of_nat m :: rat"
    have m: "0 < (of_nat m :: rat)" using assms by simp
    have qpos: "0 < ?q" using assms m by simp
    have "?q \<le> 2 powi 0" using assms m by simp
    from fl_le_pow2 [OF qpos this] have hi: "fl ?q \<le> 1" by simp
    then have "0 \<le> fl (1 - fl ?q)" by (intro fl_nonneg) simp
    with True show ?thesis by (simp add: js_similarity_def)
  qed
qed

lemma is_double_1: "is_double 1"
  using fl_pow2 [of 0] by (simp add: is_double_def)

lemma fl_100: "fl 100 = 100"
  by code_simp

lemma is_double_0: "is_double 0"
  by (simp add: is_double_def fl_def)

section \<open>Search-Replace: when nothing resembles the search block\<close>

lemma set_js_map_set: "set (js_map_set m k v) \<subseteq> insert (k, v) (set m)"
  by (induction m) (auto split: if_splits)

lemma set_js_map_delete: "set (js_map_delete m k) \<subseteq> set m"
  by (auto simp: js_map_delete_def)

lemma js_map_get_mem: "js_map_get m k = Some v \<Longrightarrow> (k, v) \<in> set m"
  by (simp add: js_map_get_def map_of_SomeD)

lemma cache_below_1_get:
  assumes "cache_below_1 s c"
  shows "cache_below_1 s (snd (LRUCache_get c k))
         \<and> (\<forall>v. suffix (''|'' @ s) k \<longrightarrow> fst (LRUCache_get c k) = Some v \<longrightarrow>
                 is_double v \<and> v < 1)"
proof (cases "js_map_get (cache c) k")
  case None
  with assms show ?thesis by (simp add: LRUCache_get_def)
next
  case (Some v)
  have v: "suffix (''|'' @ s) k \<longrightarrow> is_double v \<and> v < 1"
    using js_map_get_mem [OF Some] assms by (auto simp: cache_below_1_def list_all_iff)
  have "set (js_map_set (js_map_delete (cache c) k) k v) \<subseteq> insert (k, v) (set (cache c))"
    using set_js_map_set [of "js_map_delete (cache c) k" k v] set_js_map_delete [of "cache c" k]
    by auto
  then have "cache_below_1 s (c\<lparr> cache := js_map_set (js_map_delete (cache c) k) k v \<rparr>)"
    using assms v by (auto simp: cache_below_1_def list_all_iff)
  with Some v show ?thesis by (simp add: LRUCache_get_def)
qed

lemma cache_below_1_set:
  assumes "cache_below_1 s c" and "is_double v" and "v < 1"
  shows "cache_below_1 s (LRUCache_set c k v)"
proof -
  define m1 where "m1 = (if length (cache c) \<ge> maxSize c
                then (case js_map_first_key (cache c) of
                        None \<Rightarrow> cache c
                      | Some firstKey \<Rightarrow> js_map_delete (cache c) firstKey)
                else cache c)"
  have "set m1 \<subseteq> set (cache c)"
    using set_js_map_delete [of "cache c"] by (auto simp: m1_def split: option.splits)
  then have "set (js_map_set m1 k v) \<subseteq> insert (k, v) (set (cache c))"
    using set_js_map_set [of m1 k v] by auto
  moreover have "LRUCache_set c k v = c\<lparr> cache := js_map_set m1 k v \<rparr>"
    by (simp add: LRUCache_set_def m1_def)
  ultimately show ?thesis
    using assms by (auto simp: cache_below_1_def list_all_iff)
qed

lemma distance_le_max: "distance a b \<le> max (length a) (length b)"
proof (induction a b rule: distance.induct)
  case (3 x xs y ys)
  have "distance (x # xs) (y # ys) \<le> distance xs ys + (if x = y then 0 else 1)"
    by (simp add: distance.simps(3))
  also have "\<dots> \<le> Suc (max (length xs) (length ys))" using "3.IH"(3) by simp
  finally show ?case by simp
qed simp_all

lemma similarity_below_1:
  assumes "a \<noteq> b"
  shows "js_similarity (distance a b) (max (length a) (length b)) \<le> below_one"
    and "is_double (js_similarity (distance a b) (max (length a) (length b)))"
proof -
  have "1 \<le> distance a b" using assms distance_zero [of a b] by (cases "distance a b") auto
  then show "js_similarity (distance a b) (max (length a) (length b)) \<le> below_one"
    and "is_double (js_similarity (distance a b) (max (length a) (length b)))"
    using js_similarity_bounds [OF _ distance_le_max [of a b]] by simp_all
qed

lemma below_one_less: "below_one < 1"
  by (simp add: below_one_def)

lemma getSimilarity_below_1:
  assumes c: "cache_below_1 search c" and s: "search \<noteq> []"
    and n: "\<not> similar_at_1 original search"
  shows "fst (getSimilarity c original search) \<le> below_one
         \<and> cache_below_1 search (snd (getSimilarity c original search))"
proof -
  let ?key = "original @ ''|'' @ search"
  obtain r c1 where g: "LRUCache_get c ?key = (r, c1)" by (cases "LRUCache_get c ?key")
  have sfx: "suffix (''|'' @ search) ?key"
    by (simp add: suffix_def)
  have c1: "cache_below_1 search c1" and r: "\<And>v. r = Some v \<Longrightarrow> is_double v \<and> v < 1"
    using cache_below_1_get [OF c, of ?key] g sfx by auto
  have ne: "normalizeStr original \<noteq> normalizeStr search"
    and nh: "murmurHash3 (normalizeStr original) \<noteq> murmurHash3 (normalizeStr search)"
    using n by (auto simp: similar_at_1_def)
  show ?thesis
  proof (cases r)
    case (Some v)
    from r [OF Some] have "v \<le> below_one" by (auto intro: double_below_one)
    with Some g s c1 show ?thesis by (simp add: getSimilarity_def Let_def)
  next
    case None
    let ?v = "js_similarity (distance (normalizeStr original) (normalizeStr search))
                (max (length (normalizeStr original)) (length (normalizeStr search)))"
    have v: "?v \<le> below_one" and d: "is_double ?v" using ne by (rule similarity_below_1)+
    have v1: "?v < 1" using v below_one_less by linarith
    have "getSimilarity c original search = (?v, LRUCache_set c1 ?key ?v)"
      using None g s ne nh by (simp add: getSimilarity_def Let_def)
    then show ?thesis using v cache_below_1_set [OF c1 d v1] by simp
  qed
qed

lemma slice_clamp: "slice xs a b = slice xs (min a (length xs)) (min b (length xs))"
  by (simp add: slice_def min_def)

lemma no_region_similarD:
  assumes "no_region_similar originalLines searchChunk"
  shows "\<not> similar_at_1 (join [CHR 0x0A] (slice originalLines a b)) searchChunk"
proof -
  have "min a (length originalLines) \<in> set [0..<Suc (length originalLines)]"
    and "min b (length originalLines) \<in> set [0..<Suc (length originalLines)]"
    by auto
  then have "\<not> similar_at_1 (join [CHR 0x0A] (slice originalLines
               (min a (length originalLines)) (min b (length originalLines)))) searchChunk"
    using assms unfolding no_region_similar_def list_all_iff by blast
  then show ?thesis using slice_clamp [of originalLines a b] by simp
qed

lemma no_region_similar_nonempty:
  assumes "no_region_similar originalLines searchChunk"
  shows "searchChunk \<noteq> []"
proof
  assume "searchChunk = []"
  moreover have "join [CHR 0x0A] (slice originalLines 0 0) = []"
    by (simp add: join_def slice_def)
  ultimately show False
    using no_region_similarD [OF assms, of 0 0] by (simp add: similar_at_1_def)
qed

lemma scan_loop_below_1_aux:
  assumes nrs: "no_region_similar originalLines searchChunk"
  shows "nat (maxIndex - i) = n \<Longrightarrow> cache_below_1 searchChunk c \<Longrightarrow> fst (snd best) \<le> below_one \<Longrightarrow>
         fst (snd (fst (scan_loop originalLines searchChunk windowSize maxIndex i best c)))
           \<le> below_one
         \<and> cache_below_1 searchChunk
               (snd (scan_loop originalLines searchChunk windowSize maxIndex i best c))"
proof (induction n arbitrary: i best c)
  case 0
  then have "\<not> i < maxIndex" by simp
  then show ?case using "0.prems" by (subst (1 2) scan_loop.simps) simp
next
  case (Suc n)
  have lt: "i < maxIndex" and n: "nat (maxIndex - (i + 1)) = n"
    using Suc.prems(1) by simp_all
  have ne: "searchChunk \<noteq> []" using nrs by (rule no_region_similar_nonempty)
  define chunk where "chunk = join [CHR 0x0A] (slice originalLines (nat i) (nat i + windowSize))"
  have ns: "\<not> similar_at_1 chunk searchChunk"
    unfolding chunk_def using nrs by (rule no_region_similarD)
  then have nh: "murmurHash3 chunk \<noteq> murmurHash3 searchChunk"
    by (simp add: similar_at_1_def)
  show ?case
  proof (cases "i mod 3 = 0")
    case False
    have "scan_loop originalLines searchChunk windowSize maxIndex i best c
          = scan_loop originalLines searchChunk windowSize maxIndex (i + 1) best c"
      using lt False nh by (subst scan_loop.simps) (simp add: chunk_def [symmetric])
    then show ?thesis using Suc.IH [OF n Suc.prems(2) Suc.prems(3)] by simp
  next
    case m3: True
    obtain similarity c1 where g: "getSimilarity c chunk searchChunk = (similarity, c1)"
      by (cases "getSimilarity c chunk searchChunk")
    have sim: "similarity \<le> below_one" and c1: "cache_below_1 searchChunk c1"
      using getSimilarity_below_1 [OF Suc.prems(2) ne ns] g by auto
    define best1 where "best1 = (if similarity > fst (snd best)
                                    then (i, similarity, chunk) else best)"
    have b1: "fst (snd best1) \<le> below_one" using sim Suc.prems(3) by (simp add: best1_def)
    show ?thesis
    proof (cases "fst (snd best1) \<ge> fl (95 / 100)")
      case True
      have "scan_loop originalLines searchChunk windowSize maxIndex i best c = (best1, c1)"
        using lt m3 nh g True
        by (subst scan_loop.simps) (simp add: chunk_def [symmetric] best1_def [symmetric])
      then show ?thesis using b1 c1 by simp
    next
      case False
      have "scan_loop originalLines searchChunk windowSize maxIndex i best c
            = scan_loop originalLines searchChunk windowSize maxIndex (i + 1) best1 c1"
        using lt m3 nh g False
        by (subst scan_loop.simps) (simp add: chunk_def [symmetric] best1_def [symmetric])
      then show ?thesis using Suc.IH [OF n c1 b1] by simp
    qed
  qed
qed

lemma scan_loop_below_1:
  assumes "no_region_similar originalLines searchChunk" and "cache_below_1 searchChunk c"
  shows "fst (snd (fst (scan_loop originalLines searchChunk windowSize maxIndex i
                          (- 1, 0, []) c))) \<le> below_one
         \<and> cache_below_1 searchChunk
               (snd (scan_loop originalLines searchChunk windowSize maxIndex i
                          (- 1, 0, []) c))"
  using scan_loop_below_1_aux [OF assms(1) refl assms(2), of "(- 1, 0, [])"]
  by (simp add: below_one_def)

lemma sr_locate_below_1:
  assumes nrs: "no_region_similar originalLines (join [CHR 0x0A] searchLines)"
    and c: "cache_below_1 (join [CHR 0x0A] searchLines) c"
    and loc: "sr_locate 1 bufferLines c searchLines originalLines sl el
              = Inr ((matchIndex, score, best), c1)"
  shows "score \<le> below_one"
proof (cases "truthy sl \<and> truthy el")
  case False
  then have "scan_loop originalLines (join [CHR 0x0A] searchLines) (length searchLines)
               (int (length originalLines) - int (length searchLines) + 1) 0 (- 1, 0, []) c
             = ((matchIndex, score, best), c1)"
    using loc by (auto simp: sr_locate_def Let_def)
  then show ?thesis
    using scan_loop_below_1 [OF nrs c, of "length searchLines"
            "int (length originalLines) - int (length searchLines) + 1" 0]
    by simp
next
  case True
  then obtain s e where se: "sl = Some s" "el = Some e"
    by (cases sl; cases el) (auto simp: truthy_def)
  define chunk where "chunk = join [CHR 0x0A] (slice originalLines (nat (s - 1)) (nat e))"
  obtain similarity c2 where g:
    "getSimilarity c chunk (join [CHR 0x0A] searchLines) = (similarity, c2)"
    by (cases "getSimilarity c chunk (join [CHR 0x0A] searchLines)")
  have ns: "\<not> similar_at_1 chunk (join [CHR 0x0A] searchLines)"
    unfolding chunk_def using nrs by (rule no_region_similarD)
  have sim: "similarity \<le> below_one" and c2: "cache_below_1 (join [CHR 0x0A] searchLines) c2"
    using getSimilarity_below_1 [OF c no_region_similar_nonempty [OF nrs] ns] g by auto
  have valid: "\<not> (s - 1 < 0 \<or> e - 1 > int (length originalLines) \<or> s - 1 > e - 1)"
  proof
    assume "s - 1 < 0 \<or> e - 1 > int (length originalLines) \<or> s - 1 > e - 1"
    then show False using loc True se by (simp add: sr_locate_def Let_def)
  qed
  have "scan_loop originalLines (join [CHR 0x0A] searchLines) (length searchLines)
          (min (int (length originalLines)) (e + int bufferLines) - int (length searchLines) + 1)
          (max 0 (s - (int bufferLines + 1))) (- 1, 0, []) c2
        = ((matchIndex, score, best), c1)"
    using loc True se valid g sim below_one_less
    by (simp add: sr_locate_def Let_def chunk_def [symmetric])
  then show ?thesis
    using scan_loop_below_1 [OF nrs c2, of "length searchLines"
            "min (int (length originalLines)) (e + int bufferLines) - int (length searchLines) + 1"
            "max 0 (s - (int bufferLines + 1))"]
    by simp
qed

lemma sr_locate_range_error:
  assumes "sr_locate thr bufferLines c searchLines originalLines sl el = Inl err"
  shows "\<exists>s e. sl = Some s \<and> el = Some e \<and> err = InvalidLineRange s e (length originalLines)"
  using assms
  by (auto simp: sr_locate_def Let_def split: if_splits option.splits prod.splits)

lemma SearchReplace_absent_fails:
  assumes pre: "sr_preamble X original diff options
                = Inr (searchLines, replaceLines, originalLines, lineEnding)"
    and nrs: "no_region_similar originalLines (join [CHR 0x0A] searchLines)"
    and c: "cache_below_1 (join [CHR 0x0A] searchLines) c"
  shows "(\<exists>p best. fst (SearchReplace_applyDiff X 1 bufferLines c original diff options)
                     = Failure (NoSufficientMatch p 100 (join [CHR 0x0A] searchLines) best)
                   \<and> p < 100)
       \<or> (\<exists>s e. opt_start options = Some s \<and> opt_end options = Some e
              \<and> fst (SearchReplace_applyDiff X 1 bufferLines c original diff options)
                = Failure (InvalidLineRange s e (length originalLines)))"
proof (cases "sr_locate 1 bufferLines c searchLines originalLines
                (opt_start options) (opt_end options)")
  case (Inl err)
  from sr_locate_range_error [OF Inl] obtain s e where
    "opt_start options = Some s" "opt_end options = Some e"
    "err = InvalidLineRange s e (length originalLines)" by blast
  then show ?thesis using pre Inl by (simp add: SearchReplace_applyDiff_def)
next
  case (Inr r)
  obtain matchIndex score best c1 where r: "r = ((matchIndex, score, best), c1)"
    by (cases r) auto
  have le: "score \<le> below_one" using sr_locate_below_1 [OF nrs c] Inr r by blast
  then have lt: "score < 1" using below_one_less by linarith
  have "floor_percent score < 100"
    using percent_below_100 [OF le] by (simp add: floor_percent_def)
  moreover have "floor_percent 1 = 100" by (simp add: floor_percent_def fl_100)
  ultimately show ?thesis
    using pre Inr r lt by (simp add: SearchReplace_applyDiff_def)
qed

lemma SmartHybrid_absent_fails:
  assumes "parseDiffContent diff = Some (srch, rep)"
    and "fst (hot_get (hotCache (sh_run E calls)) now (sh_cacheKey E original diff options))
         = None"
    and "\<not> includes_str (crlf_to_lf (sh_content E original)) (crlf_to_lf srch)"
  shows "fst (SmartHybrid_applyDiff E (sh_run E calls) now original diff options)
         = Failure ''Search content not found in original content''"
  using applyDiff_hot_miss [OF warm_inv_run assms(1,2)] assms(3)
  by (simp add: sh_recompute_def)

lemma scan_loop_hash_hit:
  assumes "i < maxIndex"
    and "murmurHash3 (join [CHR 0x0A] (slice originalLines (nat i) (nat i + windowSize)))
         = murmurHash3 searchChunk"
  shows "scan_loop originalLines searchChunk windowSize maxIndex i best c
         = ((i, 1, join [CHR 0x0A] (slice originalLines (nat i) (nat i + windowSize))), c)"
  using assms by (subst scan_loop.simps) simp

text \<open>
  What the code does right for an exact match: without line numbers in the options, a
  search block that is the first lines of the original is found by its hash at index
  0, with score 1, under any threshold up to 1.
\<close>

lemma SearchReplace_first_window_exact:
  assumes pre: "sr_preamble X original diff options
                = Inr (searchLines, replaceLines, originalLines, lineEnding)"
    and norange: "\<not> (truthy (opt_start options) \<and> truthy (opt_end options))"
    and exact: "take (length searchLines) originalLines = searchLines"
    and thr: "thr \<le> 1"
  shows "fst (SearchReplace_applyDiff X thr bufferLines c original diff options)
         = Success (fst (sr_splice searchLines replaceLines originalLines lineEnding 0))
                   (snd (sr_splice searchLines replaceLines originalLines lineEnding 0))
                   (if (case options of None \<Rightarrow> False | Some opts \<Rightarrow> opt_collectMetrics opts)
                    then Some 1 else None)"
proof -
  have len: "length searchLines \<le> length originalLines"
    using arg_cong [OF exact, of length] by simp
  then have lt: "(0::int) < int (length originalLines) - int (length searchLines) + 1"
    by simp
  have sl: "slice originalLines (nat 0) (nat 0 + length searchLines) = searchLines"
    using exact by (simp add: slice_def)
  have "scan_loop originalLines (join [CHR 0x0A] searchLines) (length searchLines)
          (int (length originalLines) - int (length searchLines) + 1) 0 (- 1, 0, []) c
        = ((0, 1, join [CHR 0x0A] searchLines), c)"
    using scan_loop_hash_hit [OF lt, of originalLines "length searchLines"
            "join [CHR 0x0A] searchLines" "(- 1, 0, [])" c]
    unfolding sl by simp
  then have "sr_locate thr bufferLines c searchLines originalLines
               (opt_start options) (opt_end options)
             = Inr ((0, 1, join [CHR 0x0A] searchLines), c)"
    using norange by (auto simp: sr_locate_def Let_def)
  then show ?thesis
    using pre thr by (simp add: SearchReplace_applyDiff_def split: prod.splits)
qed

text \<open>What the code does right for an empty search section: its two guards.\<close>

lemma SearchReplace_empty_search_guards:
  assumes m: "diffRegex_match diff = Some ([], r)"
    and nn: "\<not> everyLineHasLineNumbers X []"
  shows "(\<not> truthy (opt_start options) \<longrightarrow>
            fst (SearchReplace_applyDiff X thr bufferLines c original diff options)
            = Failure EmptySearchNeedsStartLine)
       \<and> (\<forall>a b. opt_start options = Some a \<longrightarrow> opt_end options = Some b \<longrightarrow>
            a \<noteq> 0 \<longrightarrow> b \<noteq> 0 \<longrightarrow> a \<noteq> b \<longrightarrow>
            fst (SearchReplace_applyDiff X thr bufferLines c original diff options)
            = Failure (EmptySearchNeedsSameLine a b))"
  using m nn
  by (auto simp: SearchReplace_applyDiff_def sr_preamble_def Let_def truthy_def)

section \<open>Search-Replace: the candidate of the search\<close>










text \<open>
  Rounding shows at the boundary. The threshold is the double \<open>0.2\<close>; the one window
  differs from the search block in four characters of five. Its score is
  \<open>1 - 4/5\<close> as doubles give it, \<open>0.19999999999999996\<close>, which is below the
  threshold: the block is rejected, and the failure reports 19 where 20 is needed.
\<close>

lemma SearchReplace_rounded_score:
  "fst (getSimilarity similarityCache_init ''abcde'' ''aWXYZ'') < fl (1 / 5)
   \<and> fst (SearchReplace_applyDiff extract_text_model (fl (1 / 5)) 20 similarityCache_init
            ''abcde''
            ''<<<<<<< SEARCH\<newline>aWXYZ\<newline>=======\<newline>c\<newline>>>>>>>> REPLACE'' None)
       = Failure (NoSufficientMatch 19 20 ''aWXYZ'' ''abcde'')"
  by code_simp

section \<open>Search-Replace and Smart Hybrid: the claims\<close>

text \<open>
  C3. The claim fails on the code. The default instance (threshold 1) is given an
  original whose second line is the search text, character for character, and whose
  first line differs from it in one character of twenty-three. The scan scores the
  first window 22/23, which is at least 0.95: it stops there, before it reaches the
  second line, and the score is below the threshold. The result is a failure.
\<close>

theorem SearchReplace_exact_match_rejected:
  "SearchReplaceDiffStrategy_new None None = SearchReplaceDiffStrategy 1 20
   \<and> split_lines ''return computeTotal(a);\<newline>return computeTotal(b);'' ! 1
       = ''return computeTotal(b);''
   \<and> fst (SearchReplace_applyDiff extract_text_model 1 20 similarityCache_init
            ''return computeTotal(a);\<newline>return computeTotal(b);''
            ''<<<<<<< SEARCH\<newline>return computeTotal(b);\<newline>=======\<newline>return 0;\<newline>>>>>>>> REPLACE''
            None)
       = Failure (NoSufficientMatch 95 100 ''return computeTotal(b);''
                    ''return computeTotal(a);'')"
  by code_simp

text \<open>
  C5, as the claim states it, fails for Search-Replace: \<open>a  b\<close> (two blanks) does not
  contain the search text \<open>a b\<close>, and the block is applied, since scores are taken
  after white space is normalized.
\<close>

theorem SearchReplace_whitespace_match:
  "\<not> includes_str ''a  b'' ''a b''
   \<and> fst (SearchReplace_applyDiff extract_text_model 1 20 similarityCache_init ''a  b''
            ''<<<<<<< SEARCH\<newline>a b\<newline>=======\<newline>c\<newline>>>>>>>> REPLACE'' None)
       = Success ''c'' 1 None"
  by code_simp

text \<open>
  C5, amended. Smart Hybrid: in any state the instance reaches, a call whose diff
  parses, which misses the hot cache and whose content (line endings normalized) does
  not contain the search text fails with "Search content not found in original
  content". Search-Replace with the default threshold 1, on a similarity cache holding
  no score of 1 for the search block: when no run of whole lines of the original is
  taken for the search block by hash or after normalizing white space, the call fails
  with the no-match
  diagnostic (score below 100, 100 needed), or with the invalid-range failure when the
  line numbers given are out of range. Neither throws.
\<close>

theorem absent_search_text_fails:
  "(parseDiffContent diff = Some (srch, rep) \<longrightarrow>
    fst (hot_get (hotCache (sh_run E calls)) now (sh_cacheKey E original diff options)) = None
    \<longrightarrow> \<not> includes_str (crlf_to_lf (sh_content E original)) (crlf_to_lf srch) \<longrightarrow>
    fst (SmartHybrid_applyDiff E (sh_run E calls) now original diff options)
    = Failure ''Search content not found in original content'')
   \<and> (sr_preamble X original' diff' options'
         = Inr (searchLines, replaceLines, originalLines, lineEnding) \<longrightarrow>
       no_region_similar originalLines (join [CHR 0x0A] searchLines) \<longrightarrow>
       cache_below_1 (join [CHR 0x0A] searchLines) c \<longrightarrow>
       (\<exists>p best. fst (SearchReplace_applyDiff X 1 bufferLines c original' diff' options')
                     = Failure (NoSufficientMatch p 100 (join [CHR 0x0A] searchLines) best)
                   \<and> p < 100)
       \<or> (\<exists>s e. opt_start options' = Some s \<and> opt_end options' = Some e
              \<and> fst (SearchReplace_applyDiff X 1 bufferLines c original' diff' options')
                = Failure (InvalidLineRange s e (length originalLines))))"
proof (intro conjI impI)
  assume "parseDiffContent diff = Some (srch, rep)"
    and "fst (hot_get (hotCache (sh_run E calls)) now (sh_cacheKey E original diff options))
         = None"
    and "\<not> includes_str (crlf_to_lf (sh_content E original)) (crlf_to_lf srch)"
  then show "fst (SmartHybrid_applyDiff E (sh_run E calls) now original diff options)
             = Failure ''Search content not found in original content''"
    by (rule SmartHybrid_absent_fails)
next
  assume "sr_preamble X original' diff' options'
          = Inr (searchLines, replaceLines, originalLines, lineEnding)"
    and "no_region_similar originalLines (join [CHR 0x0A] searchLines)"
    and "cache_below_1 (join [CHR 0x0A] searchLines) c"
  then show "(\<exists>p best. fst (SearchReplace_applyDiff X 1 bufferLines c original' diff' options')
                     = Failure (NoSufficientMatch p 100 (join [CHR 0x0A] searchLines) best)
                   \<and> p < 100)
       \<or> (\<exists>s e. opt_start options' = Some s \<and> opt_end options' = Some e
              \<and> fst (SearchReplace_applyDiff X 1 bufferLines c original' diff' options')
                = Failure (InvalidLineRange s e (length originalLines)))"
    by (rule SearchReplace_absent_fails)
qed

theorem absent_search_text_fails_witness:
  "fst (SmartHybrid_applyDiff plain_env SmartHybrid_new 0 ''a\<newline>b''
          ''<<<<<<< SEARCH\<newline>a\<newline>=======\<newline>c\<newline>>>>>>>> REPLACE'' None)
     = Success ''c\<newline>b'' 2 None
   \<and> parseDiffContent ''<<<<<<< SEARCH\<newline>a\<newline>=======\<newline>c\<newline>>>>>>>> REPLACE''
       = Some (''a'', ''c'')
   \<and> fst (hot_get
        (hotCache (sh_run plain_env
           [\<lparr> call_now = 0, call_original = ''a\<newline>b'',
               call_diff = ''<<<<<<< SEARCH\<newline>a\<newline>=======\<newline>c\<newline>>>>>>>> REPLACE'',
               call_options = None \<rparr>]))
        1 (sh_cacheKey plain_env ''c\<newline>b''
             ''<<<<<<< SEARCH\<newline>a\<newline>=======\<newline>c\<newline>>>>>>>> REPLACE'' None)) = None
   \<and> \<not> includes_str (crlf_to_lf (sh_content plain_env ''c\<newline>b'')) (crlf_to_lf ''a'')
   \<and> fst (SmartHybrid_applyDiff plain_env
        (sh_run plain_env
           [\<lparr> call_now = 0, call_original = ''a\<newline>b'',
               call_diff = ''<<<<<<< SEARCH\<newline>a\<newline>=======\<newline>c\<newline>>>>>>>> REPLACE'',
               call_options = None \<rparr>])
        1 ''c\<newline>b'' ''<<<<<<< SEARCH\<newline>a\<newline>=======\<newline>c\<newline>>>>>>>> REPLACE'' None)
       = Failure ''Search content not found in original content''
   \<and> SearchReplace_applyDiff extract_text_model 1 20 similarityCache_init ''a\<newline>b''
          ''<<<<<<< SEARCH\<newline>a\<newline>=======\<newline>c\<newline>>>>>>>> REPLACE'' None
       = (Success ''c\<newline>b'' 1 None, similarityCache_init)
   \<and> sr_preamble extract_text_model ''c\<newline>b''
          ''<<<<<<< SEARCH\<newline>a\<newline>=======\<newline>c\<newline>>>>>>>> REPLACE'' None
       = Inr ([''a''], [''c''], [''c'', ''b''], [CHR 0x0A])
   \<and> no_region_similar [''c'', ''b''] (join [CHR 0x0A] [''a''])
   \<and> cache_below_1 (join [CHR 0x0A] [''a'']) similarityCache_init
   \<and> fst (SearchReplace_applyDiff extract_text_model 1 20 similarityCache_init ''c\<newline>b''
          ''<<<<<<< SEARCH\<newline>a\<newline>=======\<newline>c\<newline>>>>>>>> REPLACE'' None)
       = Failure (NoSufficientMatch 0 100 ''a'' [])"
proof -
  let ?d = "''<<<<<<< SEARCH\<newline>a\<newline>=======\<newline>c\<newline>>>>>>>> REPLACE''"
  let ?calls = "[\<lparr> call_now = 0, call_original = ''a\<newline>b'', call_diff = ?d,
                    call_options = None \<rparr>]"
  have first_sh: "fst (SmartHybrid_applyDiff plain_env SmartHybrid_new 0 ''a\<newline>b'' ?d None)
                  = Success ''c\<newline>b'' 2 None"
    by code_simp
  have p: "parseDiffContent ?d = Some (''a'', ''c'')"
    by code_simp
  have h: "fst (hot_get (hotCache (sh_run plain_env ?calls)) 1
                  (sh_cacheKey plain_env ''c\<newline>b'' ?d None)) = None"
    by code_simp
  have n: "\<not> includes_str (crlf_to_lf (sh_content plain_env ''c\<newline>b'')) (crlf_to_lf ''a'')"
    by code_simp
  have first_sr: "SearchReplace_applyDiff extract_text_model 1 20 similarityCache_init
                    ''a\<newline>b'' ?d None
                  = (Success ''c\<newline>b'' 1 None, similarityCache_init)"
    by code_simp
  have pre: "sr_preamble extract_text_model ''c\<newline>b'' ?d None
             = Inr ([''a''], [''c''], [''c'', ''b''], [CHR 0x0A])"
    by code_simp
  have nrs: "no_region_similar [''c'', ''b''] (join [CHR 0x0A] [''a''])"
    by code_simp
  have c: "cache_below_1 (join [CHR 0x0A] [''a'']) similarityCache_init"
    by code_simp
  have second_sr: "fst (SearchReplace_applyDiff extract_text_model 1 20 similarityCache_init
                          ''c\<newline>b'' ?d None)
                   = Failure (NoSufficientMatch 0 100 ''a'' [])"
    by code_simp
  have second_sh: "fst (SmartHybrid_applyDiff plain_env (sh_run plain_env ?calls) 1
                          ''c\<newline>b'' ?d None)
                   = Failure ''Search content not found in original content''"
    by (rule absent_search_text_fails [THEN conjunct1, rule_format, OF p h n])
  show ?thesis
    by (intro conjI) (fact first_sh, fact p, fact h, fact n, fact second_sh, fact first_sr,
        fact pre, fact nrs, fact c, fact second_sr)
qed

text \<open>
  C6. The claim fails on the code. The search section is empty, \<open>start_line\<close> is 2
  and \<open>end_line\<close> is not given: neither guard fires, the scan takes the empty window at
  index 0, and the replacement is inserted before the first line.
\<close>

theorem SearchReplace_empty_search_without_endLine:
  "diffRegex_match ''<<<<<<< SEARCH\<newline>\<newline>=======\<newline>x\<newline>>>>>>>> REPLACE'' = Some ([], ''x'')
   \<and> fst (SearchReplace_applyDiff extract_text_model 1 20 similarityCache_init ''a\<newline>b''
            ''<<<<<<< SEARCH\<newline>\<newline>=======\<newline>x\<newline>>>>>>>> REPLACE''
            (Some \<lparr> opt_startLine = Some 2, opt_endLine = None, opt_fileStats = None,
                    opt_collectMetrics = False \<rparr>))
       = Success ''x\<newline>a\<newline>b'' 1 None"
  by code_simp




end
